(* ===== verification/Prelude.thy ===== *)
theory Prelude
  imports Main "HOL-Library.AList"
begin

text \<open>
  Shared vocabulary of the development: the types that name the program's data
  (a line of text, a Python dictionary from field names to values), the bind of the
  error sum \<open>'e + 'a\<close> through which every raising operation is threaded, and generic
  lemmas on \<open>takeWhile\<close>/\<open>dropWhile\<close> and association lists that the component
  theories share.
\<close>

named_theorems py_simps \<open>evaluation equations of the Python built-ins of the model\<close>

type_synonym line = string

text \<open>
  A Python \<open>dict\<close> whose keys and values are strings. Python dictionaries keep
  insertion order, and assigning to a present key keeps its position; an association
  list without duplicate keys updated by \<open>AList.update\<close> behaves exactly so.
\<close>

type_synonym pydict = "(string \<times> string) list"

subsection \<open>Errors as the left summand\<close>

text \<open>
  The exceptions \<open>src/parser.py\<close> can raise: the two \<open>SyntaxError\<close>s of
  \<open>chunks\<close> (the kind of message and the offending line), the \<open>KeyError\<close> of a
  dictionary read at a missing key, the \<open>ValueError\<close> of a tuple unpacking of the
  wrong length, and the \<open>OSError\<close> of opening or reading a file (with the path).
  A raising operation returns \<open>Inl\<close> of one of them.
\<close>

datatype syntax_kind = BadStart | ExpectedIdValue

datatype py_error =
    SyntaxError syntax_kind string
  | KeyError string
  | ValueError string
  | OSError string

definition sbind :: "'e + 'a \<Rightarrow> ('a \<Rightarrow> 'e + 'b) \<Rightarrow> 'e + 'b" where
  "sbind r f = (case r of Inl e \<Rightarrow> Inl e | Inr a \<Rightarrow> f a)"

lemma sbind_Inl [simp]: "sbind (Inl e) f = Inl e"
  by (simp add: sbind_def)

lemma sbind_Inr [simp]: "sbind (Inr a) f = f a"
  by (simp add: sbind_def)

lemma sbind_eq_Inr_iff: "sbind r f = Inr b \<longleftrightarrow> (\<exists>a. r = Inr a \<and> f a = Inr b)"
  by (cases r) auto

lemma sbind_eq_Inl_iff:
  "sbind r f = Inl e \<longleftrightarrow> r = Inl e \<or> (\<exists>a. r = Inr a \<and> f a = Inl e)"
  by (cases r) auto

lemma sbind_assoc: "sbind (sbind r f) g = sbind r (\<lambda>a. sbind (f a) g)"
  by (cases r) auto

lemma sbind_Inr_right [simp]: "sbind r Inr = r"
  by (cases r) auto

subsection \<open>Lists\<close>

lemma dropWhile_hd_not:
  "dropWhile P xs = y # ys \<Longrightarrow> \<not> P y"
  by (simp add: dropWhile_eq_Cons_conv)

lemma rev_dropWhile_last:
  assumes "rev (dropWhile P (rev xs)) \<noteq> []"
  shows "\<not> P (last (rev (dropWhile P (rev xs))))"
proof -
  from assms have "dropWhile P (rev xs) \<noteq> []" by simp
  then show ?thesis by (simp add: last_rev hd_dropWhile)
qed

lemma takeWhile_dropWhile_split:
  "x \<in> set xs \<Longrightarrow> \<not> P x \<Longrightarrow>
   \<exists>y ys. dropWhile P xs = y # ys \<and> \<not> P y"
  by (induction xs) auto

subsection \<open>Association lists as dictionaries\<close>

lemma map_of_eq_None_keys: "map_of d k = None \<longleftrightarrow> k \<notin> fst ` set d"
  by (simp add: map_of_eq_None_iff)

lemma set_update_subset: "set (AList.update k v d) \<subseteq> insert (k, v) (set d)"
  by (induction d) auto

lemma update_keys_order:
  "map fst (AList.update k v d) = (if k \<in> set (map fst d) then map fst d else map fst d @ [k])"
  by (induction d) auto

end
