(* ===== verification/PyStr.thy ===== *)
theory PyStr
  imports Prelude
begin

text \<open>
  The Python \<open>str\<close> built-ins that \<open>src/parser.py\<close> calls, on strings over the
  characters \<open>char\<close> can hold (code points 0 to 255): \<open>str.isspace\<close> of one
  character, \<open>lstrip()\<close>, \<open>rstrip()\<close>, \<open>strip()\<close>, \<open>rstrip(chars)\<close>,
  \<open>startswith\<close>, \<open>endswith\<close>, \<open>split(sep, maxsplit=1)\<close>, \<open>lower()\<close>, and the
  line splitting of \<open>TextIO.readlines()\<close> on text whose line ends are already
  \<open>\n\<close>. Each is followed by the facts the parser's proofs use.
\<close>

subsection \<open>Whitespace\<close>

text \<open>
  \<open>str.isspace\<close> restricted to code points below 256: tab, line feed, vertical tab,
  form feed, carriage return, the four separators 0x1C to 0x1F, space, NEL (0x85) and
  no-break space (0xA0). These are the characters \<open>strip()\<close> removes.
\<close>

definition py_isspace :: "char \<Rightarrow> bool" where
  "py_isspace c \<longleftrightarrow> of_char c \<in> {9, 10, 11, 12, 13, 28, 29, 30, 31, 32, 133, 160 :: nat}"

definition py_lstrip :: "string \<Rightarrow> string" where
  "py_lstrip s = dropWhile py_isspace s"

definition py_rstrip :: "string \<Rightarrow> string" where
  "py_rstrip s = rev (dropWhile py_isspace (rev s))"

definition py_strip :: "string \<Rightarrow> string" where
  "py_strip s = py_rstrip (py_lstrip s)"

text \<open>\<open>s.rstrip(chars)\<close>: remove trailing characters that occur in \<open>chars\<close>.\<close>

definition py_rstrip_chars :: "string \<Rightarrow> string \<Rightarrow> string" where
  "py_rstrip_chars cs s = rev (dropWhile (\<lambda>c. c \<in> set cs) (rev s))"

subsection \<open>Prefixes, suffixes, splitting, case\<close>

definition py_startswith :: "string \<Rightarrow> string \<Rightarrow> bool" where
  "py_startswith s p \<longleftrightarrow> take (length p) s = p"

definition py_endswith :: "string \<Rightarrow> string \<Rightarrow> bool" where
  "py_endswith s p \<longleftrightarrow> length p \<le> length s \<and> drop (length s - length p) s = p"

text \<open>
  \<open>s.split(sep, maxsplit=1)\<close> for a one-character separator: the part before the
  first \<open>sep\<close> and everything after it, or \<open>[s]\<close> when \<open>sep\<close> does not occur.
\<close>

definition py_split1 :: "char \<Rightarrow> string \<Rightarrow> string list" where
  "py_split1 sep s =
     (if sep \<in> set s
      then [takeWhile (\<lambda>c. c \<noteq> sep) s, tl (dropWhile (\<lambda>c. c \<noteq> sep) s)]
      else [s])"

text \<open>
  \<open>str.lower\<close> on code points below 256: A to Z and the Latin-1 capitals 0xC0 to 0xDE
  except the multiplication sign 0xD7 move up by 32.
\<close>

definition py_lower_char :: "char \<Rightarrow> char" where
  "py_lower_char c =
     (let n = of_char c :: nat in
      if (65 \<le> n \<and> n \<le> 90) \<or> (192 \<le> n \<and> n \<le> 222 \<and> n \<noteq> 215)
      then char_of (n + 32) else c)"

definition py_lower :: "string \<Rightarrow> string" where
  "py_lower s = map py_lower_char s"

subsection \<open>readlines\<close>

text \<open>
  \<open>readlines()\<close> of a text stream: the text cut after every line feed, each line
  keeping its terminator; a last line without terminator is kept when non-empty.
  \<open>cur\<close> holds the reversed characters of the line being read.
\<close>

fun readlines_acc :: "string \<Rightarrow> string \<Rightarrow> string list" where
  "readlines_acc cur [] = (if cur = [] then [] else [rev cur])"
| "readlines_acc cur (c # cs) =
     (if c = CHR ''\<newline>'' then rev (c # cur) # readlines_acc [] cs
      else readlines_acc (c # cur) cs)"

definition readlines :: "string \<Rightarrow> string list" where
  "readlines s = readlines_acc [] s"

subsection \<open>Facts about the built-ins\<close>

lemma py_isspace_simps [simp]:
  "py_isspace (CHR '' '')" "py_isspace (CHR ''\<newline>'')" "py_isspace (CHR 0x09)"
  "\<not> py_isspace (CHR '':'')" "\<not> py_isspace (CHR ''#'')"
  by (simp_all add: py_isspace_def)

lemma all_set_dropWhile_iff: "(\<forall>c\<in>set (dropWhile P s). P c) \<longleftrightarrow> (\<forall>c\<in>set s. P c)"
  by (induction s) auto

text \<open>\<open>not line.strip()\<close> holds exactly of the lines made of whitespace only.\<close>

lemma py_strip_Nil_iff: "py_strip s = [] \<longleftrightarrow> (\<forall>c\<in>set s. py_isspace c)"
  by (simp add: py_strip_def py_rstrip_def py_lstrip_def dropWhile_eq_Nil_conv all_set_dropWhile_iff)

lemma py_lstrip_Cons: "py_lstrip s = c # t \<Longrightarrow> \<not> py_isspace c"
  unfolding py_lstrip_def by (rule dropWhile_hd_not)

lemma py_lstrip_idem [simp]: "py_lstrip (py_lstrip s) = py_lstrip s"
  by (simp add: py_lstrip_def)

lemma py_startswith_Cons [simp]: "py_startswith s [c] \<longleftrightarrow> (\<exists>t. s = c # t)"
  by (cases s) (auto simp: py_startswith_def)

text \<open>\<open>rstrip(chars)\<close> leaves no trailing character of \<open>chars\<close> and keeps a first character outside \<open>chars\<close>.\<close>

lemma py_rstrip_chars_last:
  "py_rstrip_chars cs s \<noteq> [] \<Longrightarrow> last (py_rstrip_chars cs s) \<notin> set cs"
  unfolding py_rstrip_chars_def using rev_dropWhile_last by metis

lemma py_rstrip_chars_idem [simp]:
  "py_rstrip_chars cs (py_rstrip_chars cs s) = py_rstrip_chars cs s"
  by (simp add: py_rstrip_chars_def)

lemma py_rstrip_chars_Cons_keep:
  assumes "c \<notin> set cs"
  shows "\<exists>t. py_rstrip_chars cs (c # s) = c # t"
proof (cases "\<forall>x\<in>set (rev s). x \<in> set cs")
  case True
  then have "dropWhile (\<lambda>c. c \<in> set cs) (rev s @ [c]) = [c]"
    using assms by (subst dropWhile_append2) auto
  then show ?thesis by (simp add: py_rstrip_chars_def)
next
  case False
  then obtain x where "x \<in> set (rev s)" "x \<notin> set cs" by blast
  then have "dropWhile (\<lambda>c. c \<in> set cs) (rev s @ [c]) =
      dropWhile (\<lambda>c. c \<in> set cs) (rev s) @ [c]"
    by (simp add: dropWhile_append1)
  then show ?thesis by (simp add: py_rstrip_chars_def)
qed

text \<open>\<open>split(sep, maxsplit=1)\<close> cuts at the first separator and loses nothing.\<close>

lemma py_split1_found:
  assumes "sep \<in> set s"
  shows "\<exists>k v. py_split1 sep s = [k, v] \<and> s = k @ sep # v \<and> sep \<notin> set k"
proof -
  let ?P = "\<lambda>c. c \<noteq> sep"
  obtain y ys where d: "dropWhile ?P s = y # ys" and "\<not> ?P y"
    using takeWhile_dropWhile_split[of sep s ?P] assms by auto
  then have "y = sep" by simp
  moreover have "s = takeWhile ?P s @ dropWhile ?P s" by simp
  moreover have "sep \<notin> set (takeWhile ?P s)"
    by (auto dest: set_takeWhileD)
  ultimately show ?thesis using d assms by (simp add: py_split1_def)
qed

lemma py_split1_append:
  "sep \<notin> set k \<Longrightarrow> py_split1 sep (k @ sep # v) = [k, v]"
  by (induction k) (auto simp: py_split1_def)

lemmas py_str_defs [py_simps] = py_isspace_def py_lstrip_def py_rstrip_def py_strip_def
  py_rstrip_chars_def py_startswith_def py_endswith_def py_split1_def py_lower_def
  py_lower_char_def readlines_def

end
