(* ===== verification/PyDict.thy ===== *)
theory PyDict
  imports PyStr
begin

text \<open>
  The Python \<open>dict\<close> operations \<open>chunks\<close> performs on its pending record, on the
  association-list model \<open>pydict\<close> of the prelude: \<open>k in d\<close>, \<open>d[k]\<close> (raising
  \<open>KeyError\<close>), \<open>d[k] = v\<close> and \<open>d[k] += x\<close>. Insertion order is that of Python
  3.7 and later: a new key goes last, an assignment to a present key keeps its place.
\<close>

definition dict_contains :: "pydict \<Rightarrow> string \<Rightarrow> bool" where
  "dict_contains d k \<longleftrightarrow> k \<in> set (map fst d)"

definition dict_getitem :: "pydict \<Rightarrow> string \<Rightarrow> py_error + string" where
  "dict_getitem d k = (case map_of d k of None \<Rightarrow> Inl (KeyError k) | Some v \<Rightarrow> Inr v)"

definition dict_setitem :: "pydict \<Rightarrow> string \<Rightarrow> string \<Rightarrow> pydict" where
  "dict_setitem d k v = AList.update k v d"

text \<open>\<open>d[k] += x\<close> on strings: read (which may raise), concatenate, store.\<close>

definition dict_iadd :: "pydict \<Rightarrow> string \<Rightarrow> string \<Rightarrow> py_error + pydict" where
  "dict_iadd d k x = sbind (dict_getitem d k) (\<lambda>v. Inr (dict_setitem d k (v @ x)))"

lemma dict_contains_iff_map_of: "dict_contains d k \<longleftrightarrow> map_of d k \<noteq> None"
  by (simp add: dict_contains_def map_of_eq_None_keys image_iff)

lemma dict_getitem_present:
  "map_of d k = Some v \<Longrightarrow> dict_getitem d k = Inr v"
  by (simp add: dict_getitem_def)

lemma dict_getitem_missing:
  "\<not> dict_contains d k \<Longrightarrow> dict_getitem d k = Inl (KeyError k)"
  by (simp add: dict_getitem_def dict_contains_iff_map_of)

lemma map_of_dict_setitem [simp]: "map_of (dict_setitem d k v) = (map_of d)(k \<mapsto> v)"
  by (simp add: dict_setitem_def update_conv')

lemma keys_dict_setitem [simp]:
  "fst ` set (dict_setitem d k v) = insert k (fst ` set d)"
  using AList.dom_update[of k v d] by (simp add: dict_setitem_def)

lemma keys_order_dict_setitem:
  "map fst (dict_setitem d k v) = (if k \<in> set (map fst d) then map fst d else map fst d @ [k])"
  by (simp add: dict_setitem_def update_keys_order)

lemma distinct_dict_setitem:
  "distinct (map fst d) \<Longrightarrow> distinct (map fst (dict_setitem d k v))"
  by (simp add: dict_setitem_def distinct_update)

lemma dict_setitem_nonempty [simp]: "dict_setitem d k v \<noteq> []"
  by (simp add: dict_setitem_def)

lemma dict_iadd_present:
  "map_of d k = Some v \<Longrightarrow> dict_iadd d k x = Inr (dict_setitem d k (v @ x))"
  by (simp add: dict_iadd_def dict_getitem_present)

lemma dict_iadd_missing:
  "\<not> dict_contains d k \<Longrightarrow> dict_iadd d k x = Inl (KeyError k)"
  by (simp add: dict_iadd_def dict_getitem_missing)

lemma dict_iadd_Inr:
  "dict_iadd d k x = Inr d' \<longleftrightarrow> (\<exists>v. map_of d k = Some v \<and> d' = dict_setitem d k (v @ x))"
  by (auto simp: dict_iadd_def dict_getitem_def split: option.splits)

lemma dict_iadd_Inl: "dict_iadd d k x = Inl e \<longleftrightarrow> map_of d k = None \<and> e = KeyError k"
  by (auto simp: dict_iadd_def dict_getitem_def split: option.splits)

lemmas dict_simps = dict_iadd_present dict_iadd_missing dict_getitem_present
  dict_getitem_missing map_of_dict_setitem keys_dict_setitem

end
