(* ===== verification/Chunks.thy ===== *)
theory Chunks
  imports PyDict
begin

text \<open>
  The core of \<open>src/parser.py\<close>: the generator \<open>chunks(file_obj)\<close> (lines 8 to 41)
  and \<open>strip_linebreaks(chunk)\<close> (lines 59 to 64). The generator's two local
  variables, the pending dictionary \<open>chunk\<close> and the last field name \<open>key\<close>, are
  the record \<open>chunks_state\<close>. One iteration of the \<open>for\<close> loop is
  \<open>chunks_step\<close>, which either raises or returns the next state and the record it
  yields, if any; the part of the loop body after the comment and blank tests is
  \<open>data_line\<close>. \<open>chunks_loop\<close> is the loop, and \<open>chunks\<close> the whole
  generator: the records it yields, in order, and the exception that ended it, if any.
\<close>

record chunks_state =
  chunk :: pydict
  key :: "string option"

definition chunks_init :: chunks_state where
  "chunks_init = \<lparr>chunk = [], key = None\<rparr>"

definition strip_linebreaks :: "pydict \<Rightarrow> pydict" where
  "strip_linebreaks c = map (\<lambda>(k, v). (k, py_rstrip_chars ''\<newline>'' v)) c"

text \<open>
  Lines 23 to 37: a line that is neither a comment nor blank. A line starting with a
  space continues the value of \<open>key\<close> (\<open>chunk[key] += line.lstrip()\<close>, which
  raises \<open>KeyError\<close> when \<open>key\<close> is not in \<open>chunk\<close>); any other line must hold
  a colon, is split at the first one, and assigns or appends the left-stripped value.
\<close>

definition data_line :: "chunks_state \<Rightarrow> line \<Rightarrow> py_error + chunks_state" where
  "data_line s line =
     (if py_startswith line '' '' then
        (case key s of
           None \<Rightarrow> Inl (SyntaxError BadStart line)
         | Some k \<Rightarrow> sbind (dict_iadd (chunk s) k (py_lstrip line))
                        (\<lambda>c. Inr (s\<lparr>chunk := c\<rparr>)))
      else if CHR '':'' \<notin> set line then Inl (SyntaxError ExpectedIdValue line)
      else (case py_split1 CHR '':'' line of
              [k, v] \<Rightarrow>
                (let val = py_lstrip v in
                 sbind (if dict_contains (chunk s) k then dict_iadd (chunk s) k val
                        else Inr (dict_setitem (chunk s) k val))
                       (\<lambda>c. Inr (s\<lparr>chunk := c, key := Some k\<rparr>)))
            | _ \<Rightarrow> Inl (ValueError line)))"

text \<open>
  Lines 16 to 37: one iteration of the loop. A comment is skipped; a blank line yields
  the pending record when it is non-empty and empties \<open>chunk\<close> (but leaves \<open>key\<close>
  as it is, as the source does); any other line is \<open>data_line\<close>.
\<close>

definition chunks_step ::
  "chunks_state \<Rightarrow> line \<Rightarrow> py_error + (chunks_state \<times> pydict option)" where
  "chunks_step s line =
     (if py_startswith line ''#'' then Inr (s, None)
      else if py_strip line = [] then
        Inr (s\<lparr>chunk := []\<rparr>,
             if chunk s \<noteq> [] then Some (strip_linebreaks (chunk s)) else None)
      else sbind (data_line s line) (\<lambda>s'. Inr (s', None)))"

text \<open>
  Line 15: the \<open>for\<close> loop over \<open>file_obj.readlines()\<close>. The result holds the
  records yielded, in order, and either the exception raised or the state at the end.
\<close>

fun chunks_loop :: "chunks_state \<Rightarrow> line list \<Rightarrow> pydict list \<times> (py_error + chunks_state)" where
  "chunks_loop s [] = ([], Inr s)"
| "chunks_loop s (l # ls) =
     (case chunks_step s l of
        Inl e \<Rightarrow> ([], Inl e)
      | Inr (s', y) \<Rightarrow>
          (let (rs, r) = chunks_loop s' ls
           in ((case y of None \<Rightarrow> rs | Some c \<Rightarrow> c # rs), r)))"

text \<open>
  Lines 8 to 41: the generator. After the loop the last pending record is yielded when
  it is non-empty (lines 40 and 41). An exception ends the sequence after the records
  yielded before it.
\<close>

definition chunks :: "line list \<Rightarrow> pydict list \<times> py_error option" where
  "chunks lines =
     (case chunks_loop chunks_init lines of
        (rs, Inl e) \<Rightarrow> (rs, Some e)
      | (rs, Inr s) \<Rightarrow>
          ((if chunk s \<noteq> [] then rs @ [strip_linebreaks (chunk s)] else rs), None))"

text \<open>\<open>chunks(file_obj)\<close> on a stream whose text is \<open>text\<close>.\<close>

definition chunks_text :: "string \<Rightarrow> pydict list \<times> py_error option" where
  "chunks_text text = chunks (readlines text)"

text \<open>
  The states of the generator's locals that some input leads to without raising: the
  start, and any state one iteration of the loop reaches from a reachable one.
\<close>

inductive chunks_reach :: "chunks_state \<Rightarrow> bool" where
  start: "chunks_reach chunks_init"
| step: "chunks_reach s \<Longrightarrow> chunks_step s l = Inr (s', y) \<Longrightarrow> chunks_reach s'"

subsection \<open>The branches of one iteration\<close>

lemma chunks_step_comment:
  "py_startswith l ''#'' \<Longrightarrow> chunks_step s l = Inr (s, None)"
  by (simp add: chunks_step_def)

lemma chunks_step_blank:
  "\<not> py_startswith l ''#'' \<Longrightarrow> py_strip l = [] \<Longrightarrow>
   chunks_step s l = Inr (s\<lparr>chunk := []\<rparr>,
     if chunk s \<noteq> [] then Some (strip_linebreaks (chunk s)) else None)"
  by (simp add: chunks_step_def)

lemma chunks_step_data:
  "\<not> py_startswith l ''#'' \<Longrightarrow> py_strip l \<noteq> [] \<Longrightarrow>
   chunks_step s l = sbind (data_line s l) (\<lambda>s'. Inr (s', None))"
  by (simp add: chunks_step_def)

lemma data_line_cont_no_key:
  "l = CHR '' '' # t \<Longrightarrow> key s = None \<Longrightarrow> data_line s l = Inl (SyntaxError BadStart l)"
  by (simp add: data_line_def)

lemma data_line_cont:
  "l = CHR '' '' # t \<Longrightarrow> key s = Some k \<Longrightarrow>
   data_line s l = sbind (dict_iadd (chunk s) k (py_lstrip l)) (\<lambda>c. Inr (s\<lparr>chunk := c\<rparr>))"
  by (simp add: data_line_def)

lemma data_line_malformed:
  "\<not> py_startswith l '' '' \<Longrightarrow> CHR '':'' \<notin> set l \<Longrightarrow>
   data_line s l = Inl (SyntaxError ExpectedIdValue l)"
  by (simp add: data_line_def del: py_startswith_Cons)

lemma data_line_field:
  assumes "\<not> py_startswith l '' ''" and "l = k @ CHR '':'' # v" and "CHR '':'' \<notin> set k"
  shows "data_line s l =
     Inr (s\<lparr>chunk := dict_setitem (chunk s) k
                 (case map_of (chunk s) k of None \<Rightarrow> py_lstrip v | Some v0 \<Rightarrow> v0 @ py_lstrip v),
            key := Some k\<rparr>)"
proof -
  have "py_split1 CHR '':'' l = [k, v]" using assms(2,3) by (simp add: py_split1_append)
  with assms(1,2) show ?thesis
    by (cases "map_of (chunk s) k")
       (simp_all add: data_line_def dict_contains_iff_map_of dict_iadd_present
          del: py_startswith_Cons)
qed

text \<open>The unpacking \<open>key, val = line.split(':', maxsplit=1)\<close> never raises.\<close>

lemma data_line_field_cases:
  assumes "\<not> py_startswith l '' ''" and "CHR '':'' \<in> set l"
  obtains k v where "l = k @ CHR '':'' # v" and "CHR '':'' \<notin> set k"
  using py_split1_found[OF assms(2)] by blast

lemmas chunks_eval = chunks_text_def chunks_def chunks_step_def data_line_def chunks_init_def
  strip_linebreaks_def dict_contains_def dict_iadd_def dict_getitem_def dict_setitem_def


subsection \<open>Invariant of the pending record\<close>

text \<open>
  A field name produced by a field-start line: it holds no colon (the split is at the
  first one) and starts neither with a space (that would be a continuation line) nor
  with \<open>#\<close> (a comment).
\<close>

definition key_ok :: "string \<Rightarrow> bool" where
  "key_ok k \<longleftrightarrow> CHR '':'' \<notin> set k \<and> \<not> py_startswith k '' '' \<and> \<not> py_startswith k ''#''"

text \<open>
  The invariant of the generator's locals: the keys of \<open>chunk\<close> are distinct and
  well formed, every stored value is empty or starts with a non-whitespace character
  (each piece appended was left-stripped), and a non-empty \<open>chunk\<close> holds \<open>key\<close>.
\<close>

definition pending_inv :: "chunks_state \<Rightarrow> bool" where
  "pending_inv s \<longleftrightarrow>
     distinct (map fst (chunk s)) \<and>
     (\<forall>(k, v) \<in> set (chunk s). key_ok k \<and> (v = [] \<or> \<not> py_isspace (hd v))) \<and>
     (case key s of None \<Rightarrow> chunk s = [] | Some k \<Rightarrow> chunk s = [] \<or> k \<in> set (map fst (chunk s)))"

text \<open>What a yielded record satisfies.\<close>

definition wf_record :: "pydict \<Rightarrow> bool" where
  "wf_record r \<longleftrightarrow>
     r \<noteq> [] \<and> distinct (map fst r) \<and>
     (\<forall>(k, v) \<in> set r. key_ok k \<and> (v = [] \<or> \<not> py_isspace (hd v) \<and> last v \<noteq> CHR ''\<newline>''))"

text \<open>
  What the current key says about the records yielded so far (\<open>rs\<close>): before the
  first field-start line it is \<open>None\<close>, nothing is pending and nothing was yielded;
  afterwards it names a field of the pending record or, when a blank line has just
  emptied that record, a field of the last record yielded.
\<close>

definition key_trail :: "pydict list \<Rightarrow> chunks_state \<Rightarrow> bool" where
  "key_trail rs s \<longleftrightarrow>
     (case key s of
        None \<Rightarrow> rs = [] \<and> chunk s = []
      | Some k \<Rightarrow> k \<in> fst ` set (chunk s) \<or> (chunk s = [] \<and> rs \<noteq> [] \<and> k \<in> fst ` set (last rs)))"

lemma pending_inv_init: "pending_inv chunks_init"
  by (simp add: pending_inv_def chunks_init_def)

lemma map_fst_strip_linebreaks [simp]: "map fst (strip_linebreaks c) = map fst c"
  by (induction c) (auto simp: strip_linebreaks_def)

lemma map_of_strip_linebreaks:
  "map_of (strip_linebreaks c) k = map_option (py_rstrip_chars ''\<newline>'') (map_of c k)"
  by (induction c) (auto simp: strip_linebreaks_def)

lemma strip_linebreaks_Nil_iff [simp]: "strip_linebreaks c = [] \<longleftrightarrow> c = []"
  by (simp add: strip_linebreaks_def)

lemma rstrip_newline_value:
  assumes "v = [] \<or> \<not> py_isspace (hd v)"
  shows "py_rstrip_chars ''\<newline>'' v = [] \<or>
    \<not> py_isspace (hd (py_rstrip_chars ''\<newline>'' v)) \<and>
    last (py_rstrip_chars ''\<newline>'' v) \<noteq> CHR ''\<newline>''"
proof (cases v)
  case (Cons c t)
  with assms have "c \<notin> set ''\<newline>''" by auto
  then obtain u where "py_rstrip_chars ''\<newline>'' (c # t) = c # u"
    using py_rstrip_chars_Cons_keep by blast
  moreover have "last (py_rstrip_chars ''\<newline>'' (c # t)) \<notin> set ''\<newline>''"
    using calculation py_rstrip_chars_last by (metis list.distinct(1))
  ultimately show ?thesis using assms Cons by simp
qed (simp add: py_rstrip_chars_def)

lemma wf_record_strip_linebreaks:
  assumes "pending_inv s" and "chunk s \<noteq> []"
  shows "wf_record (strip_linebreaks (chunk s))"
proof -
  from assms(1) have d: "distinct (map fst (chunk s))"
    and vals: "\<forall>(k, v) \<in> set (chunk s). key_ok k \<and> (v = [] \<or> \<not> py_isspace (hd v))"
    by (simp_all add: pending_inv_def)
  have "key_ok k \<and> (v = [] \<or> \<not> py_isspace (hd v) \<and> last v \<noteq> CHR ''\<newline>'')"
    if "(k, v) \<in> set (strip_linebreaks (chunk s))" for k v
  proof -
    from that obtain v0 where kv0: "(k, v0) \<in> set (chunk s)"
      and v: "v = py_rstrip_chars ''\<newline>'' v0"
      by (auto simp: strip_linebreaks_def)
    from vals kv0 have "key_ok k" and "v0 = [] \<or> \<not> py_isspace (hd v0)" by auto
    with v rstrip_newline_value show ?thesis by blast
  qed
  with d assms(2) show ?thesis by (auto simp: wf_record_def)
qed

lemma values_after_update:
  assumes "\<forall>(k', v') \<in> set d. P k' v'" and "P k v"
  shows "\<forall>(k', v') \<in> set (dict_setitem d k v). P k' v'"
  using assms set_update_subset[of k v d] by (auto simp: dict_setitem_def)

lemma lstrip_value_ok: "py_lstrip x = [] \<or> \<not> py_isspace (hd (py_lstrip x))"
  by (cases "py_lstrip x") (auto dest: py_lstrip_Cons)

lemma append_value_ok:
  "v = [] \<or> \<not> py_isspace (hd v) \<Longrightarrow> v @ py_lstrip x = [] \<or> \<not> py_isspace (hd (v @ py_lstrip x))"
  using lstrip_value_ok[of x] by (cases v) auto

lemma key_ok_field:
  assumes "\<not> py_startswith l '' ''" and "\<not> py_startswith l ''#''"
    and "l = k @ CHR '':'' # v" and "CHR '':'' \<notin> set k"
  shows "key_ok k"
  using assms by (cases k) (auto simp: key_ok_def)

lemma pending_inv_setitem:
  assumes inv: "pending_inv s" and k: "key_ok k" and v: "v = [] \<or> \<not> py_isspace (hd v)"
  shows "pending_inv (s\<lparr>chunk := dict_setitem (chunk s) k v, key := Some k\<rparr>)"
proof -
  let ?P = "\<lambda>k v. key_ok k \<and> (v = [] \<or> \<not> py_isspace (hd v))"
  from inv have "distinct (map fst (chunk s))" and "\<forall>(k', v') \<in> set (chunk s). ?P k' v'"
    by (simp_all add: pending_inv_def)
  then have "distinct (map fst (dict_setitem (chunk s) k v))"
    and "\<forall>(k', v') \<in> set (dict_setitem (chunk s) k v). ?P k' v'"
    using k v by (simp_all add: distinct_dict_setitem values_after_update[where P = ?P])
  then show ?thesis by (simp add: pending_inv_def)
qed

lemma data_line_inv:
  assumes inv: "pending_inv s" and nc: "\<not> py_startswith l ''#''" and ne: "py_strip l \<noteq> []"
    and r: "data_line s l = Inr s'"
  shows "pending_inv s'"
proof (cases "py_startswith l '' ''")
  case True
  then obtain t where l: "l = CHR '' '' # t" by auto
  obtain k where kk: "key s = Some k"
    using r l by (cases "key s") (auto simp: data_line_cont_no_key)
  from r l kk obtain v0 where v0: "map_of (chunk s) k = Some v0"
    and s': "s' = s\<lparr>chunk := dict_setitem (chunk s) k (v0 @ py_lstrip l)\<rparr>"
    by (auto simp: data_line_cont sbind_eq_Inr_iff dict_iadd_Inr)
  from v0 have "(k, v0) \<in> set (chunk s)" by (rule map_of_SomeD)
  with inv have kok: "key_ok k" and v0ok: "v0 = [] \<or> \<not> py_isspace (hd v0)"
    by (auto simp: pending_inv_def)
  have "pending_inv (s\<lparr>chunk := dict_setitem (chunk s) k (v0 @ py_lstrip l),
      key := Some k\<rparr>)"
    using inv kok append_value_ok[OF v0ok] by (rule pending_inv_setitem)
  moreover from kk have "s\<lparr>chunk := dict_setitem (chunk s) k (v0 @ py_lstrip l)\<rparr> =
      s\<lparr>chunk := dict_setitem (chunk s) k (v0 @ py_lstrip l), key := Some k\<rparr>"
    by simp
  ultimately show ?thesis unfolding s' by simp
next
  case False
  have colon: "CHR '':'' \<in> set l"
    using r False by (cases "CHR '':'' \<in> set l") (auto simp: data_line_malformed)
  obtain k v where l: "l = k @ CHR '':'' # v" and k: "CHR '':'' \<notin> set k"
    using False colon by (rule data_line_field_cases)
  let ?val = "case map_of (chunk s) k of None \<Rightarrow> py_lstrip v | Some v0 \<Rightarrow> v0 @ py_lstrip v"
  from r data_line_field[OF False l k]
  have s': "s' = s\<lparr>chunk := dict_setitem (chunk s) k ?val, key := Some k\<rparr>" by simp
  have kok: "key_ok k" using False nc l k by (rule key_ok_field)
  have "?val = [] \<or> \<not> py_isspace (hd ?val)"
  proof (cases "map_of (chunk s) k")
    case None
    then show ?thesis using lstrip_value_ok by simp
  next
    case (Some v0)
    then have "(k, v0) \<in> set (chunk s)" by (rule map_of_SomeD)
    with inv have "v0 = [] \<or> \<not> py_isspace (hd v0)" by (auto simp: pending_inv_def)
    then have "v0 @ py_lstrip v = [] \<or> \<not> py_isspace (hd (v0 @ py_lstrip v))"
      by (rule append_value_ok)
    with Some show ?thesis by simp
  qed
  with inv kok show ?thesis unfolding s' by (rule pending_inv_setitem)
qed

lemma chunks_step_inv:
  assumes "pending_inv s" and "chunks_step s l = Inr (s', y)"
  shows "pending_inv s' \<and> (\<forall>r. y = Some r \<longrightarrow> wf_record r)"
proof (cases "py_startswith l ''#''")
  case True
  with assms show ?thesis by (simp add: chunks_step_comment)
next
  case nc: False
  show ?thesis
  proof (cases "py_strip l = []")
    case True
    with nc assms(2) have "s' = s\<lparr>chunk := []\<rparr>"
      and "y = (if chunk s \<noteq> [] then Some (strip_linebreaks (chunk s)) else None)"
      by (simp_all add: chunks_step_blank)
    with assms(1) show ?thesis
      by (auto simp: pending_inv_def wf_record_strip_linebreaks split: option.splits)
  next
    case False
    with nc assms(2) have "data_line s l = Inr s'" and "y = None"
      by (auto simp: chunks_step_data sbind_eq_Inr_iff)
    with data_line_inv assms(1) nc False show ?thesis by blast
  qed
qed

lemma chunks_loop_Cons_Inr:
  "chunks_step s l = Inr (s', y) \<Longrightarrow> chunks_loop s' ls = (rs, r) \<Longrightarrow>
   chunks_loop s (l # ls) = ((case y of None \<Rightarrow> rs | Some c \<Rightarrow> c # rs), r)"
  by simp

lemma chunks_loop_inv:
  "pending_inv s \<Longrightarrow> chunks_loop s ls = (rs, r) \<Longrightarrow>
   (\<forall>x\<in>set rs. wf_record x) \<and> (\<forall>s'. r = Inr s' \<longrightarrow> pending_inv s')"
proof (induction ls arbitrary: s rs r)
  case Nil
  then show ?case by auto
next
  case (Cons l ls)
  show ?case
  proof (cases "chunks_step s l")
    case (Inl e)
    with Cons.prems show ?thesis by auto
  next
    case (Inr p)
    obtain s' y where p: "p = (s', y)" by fastforce
    obtain rs' r' where rec: "chunks_loop s' ls = (rs', r')" by fastforce
    from chunks_step_inv[OF Cons.prems(1)] Inr p
    have inv': "pending_inv s'" and y: "\<forall>c. y = Some c \<longrightarrow> wf_record c" by auto
    from Cons.IH[OF inv' rec]
    have "(\<forall>x\<in>set rs'. wf_record x) \<and> (\<forall>s''. r' = Inr s'' \<longrightarrow> pending_inv s'')" .
    moreover from Cons.prems(2) Inr p rec
    have "rs = (case y of None \<Rightarrow> rs' | Some c \<Rightarrow> c # rs')" and "r = r'"
      by (simp_all add: chunks_loop_Cons_Inr)
    ultimately show ?thesis using y by (auto split: option.splits)
  qed
qed

lemma chunks_reach_inv: "chunks_reach s \<Longrightarrow> pending_inv s"
proof (induction rule: chunks_reach.induct)
  case start
  show ?case by (rule pending_inv_init)
next
  case (step s l s' y)
  then show ?case using chunks_step_inv by blast
qed

lemma chunks_loop_reach:
  "chunks_reach s \<Longrightarrow> chunks_loop s ls = (rs, Inr s') \<Longrightarrow> chunks_reach s'"
proof (induction ls arbitrary: s rs)
  case Nil
  then show ?case by simp
next
  case (Cons l ls)
  from Cons.prems(2) obtain s1 y rs1 where st: "chunks_step s l = Inr (s1, y)"
    and rec: "chunks_loop s1 ls = (rs1, Inr s')"
    by (auto split: sum.splits prod.splits)
  from Cons.prems(1) st have "chunks_reach s1" by (rule chunks_reach.step)
  then show ?case using rec by (rule Cons.IH)
qed

subsection \<open>Comments and the single forward pass\<close>

lemma chunks_loop_filter_comments:
  "chunks_loop s (filter (\<lambda>l. \<not> py_startswith l ''#'') ls) = chunks_loop s ls"
proof (induction ls arbitrary: s)
  case (Cons l ls)
  show ?case
  proof (cases "py_startswith l ''#''")
    case True
    then show ?thesis using Cons.IH by (simp add: chunks_step_comment del: py_startswith_Cons)
  next
    case False
    then show ?thesis using Cons.IH by (simp del: py_startswith_Cons split: sum.split)
  qed
qed simp

text \<open>
  The loop reads its input once, front to back: running it on \<open>xs @ ys\<close> is running
  it on \<open>xs\<close> and then, unless that raised, on \<open>ys\<close> from the state reached.
\<close>

lemma chunks_loop_append:
  "chunks_loop s (xs @ ys) =
     (case chunks_loop s xs of
        (rs, Inl e) \<Rightarrow> (rs, Inl e)
      | (rs, Inr s') \<Rightarrow> (case chunks_loop s' ys of (rs', r) \<Rightarrow> (rs @ rs', r)))"
  by (induction xs arbitrary: s)
     (auto split: sum.splits prod.splits option.splits)

subsection \<open>The current key and the records yielded\<close>

lemma key_trail_init: "key_trail [] chunks_init"
  by (simp add: key_trail_def chunks_init_def)

text \<open>After a data line the current key names a field of the pending record.\<close>

lemma data_line_key_in:
  assumes r: "data_line s l = Inr s'"
  shows "\<exists>k. key s' = Some k \<and> k \<in> fst ` set (chunk s')"
proof (cases "py_startswith l '' ''")
  case True
  then obtain t where l: "l = CHR '' '' # t" by auto
  obtain k where kk: "key s = Some k"
    using r l by (cases "key s") (auto simp: data_line_cont_no_key)
  from r l kk obtain c where "dict_iadd (chunk s) k (py_lstrip l) = Inr c" and "s' = s\<lparr>chunk := c\<rparr>"
    by (auto simp: data_line_cont sbind_eq_Inr_iff)
  with kk show ?thesis by (auto simp: dict_iadd_Inr)
next
  case False
  have colon: "CHR '':'' \<in> set l"
    using r False by (cases "CHR '':'' \<in> set l") (auto simp: data_line_malformed)
  obtain k v where l: "l = k @ CHR '':'' # v" and k: "CHR '':'' \<notin> set k"
    using False colon by (rule data_line_field_cases)
  from r data_line_field[OF False l k] show ?thesis by auto
qed

lemma chunks_step_key_trail:
  assumes kt: "key_trail rs s" and st: "chunks_step s l = Inr (s', y)"
  shows "key_trail (rs @ (case y of None \<Rightarrow> [] | Some c \<Rightarrow> [c])) s'"
proof (cases "py_startswith l ''#''")
  case True
  with st kt show ?thesis by (simp add: chunks_step_comment del: py_startswith_Cons)
next
  case nc: False
  show ?thesis
  proof (cases "py_strip l = []")
    case True
    with nc st have s': "s' = s\<lparr>chunk := []\<rparr>"
      and y: "y = (if chunk s \<noteq> [] then Some (strip_linebreaks (chunk s)) else None)"
      by (simp_all add: chunks_step_blank)
    show ?thesis
    proof (cases "chunk s = []")
      case True
      with kt s' y show ?thesis by (cases s) (simp add: key_trail_def split: option.splits)
    next
      case False
      with kt obtain k where "key s = Some k" and "k \<in> fst ` set (chunk s)"
        by (auto simp: key_trail_def split: option.splits)
      moreover have "fst ` set (strip_linebreaks (chunk s)) = fst ` set (chunk s)"
        using map_fst_strip_linebreaks[of "chunk s"] by (metis set_map)
      ultimately show ?thesis using False s' y by (simp add: key_trail_def)
    qed
  next
    case False
    with nc st have d: "data_line s l = Inr s'" and y: "y = None"
      by (auto simp: chunks_step_data sbind_eq_Inr_iff)
    from data_line_key_in[OF d] obtain k where "key s' = Some k" and "k \<in> fst ` set (chunk s')"
      by blast
    with y show ?thesis by (simp add: key_trail_def)
  qed
qed

lemma chunks_loop_key_trail:
  "key_trail acc s \<Longrightarrow> chunks_loop s ls = (rs, Inr s') \<Longrightarrow> key_trail (acc @ rs) s'"
proof (induction ls arbitrary: acc s rs)
  case (Cons l ls)
  from Cons.prems(2) obtain s1 y rs1 where st: "chunks_step s l = Inr (s1, y)"
    and rec: "chunks_loop s1 ls = (rs1, Inr s')"
    and rs: "rs = (case y of None \<Rightarrow> rs1 | Some c \<Rightarrow> c # rs1)"
    by (auto split: sum.splits prod.splits)
  from Cons.IH[OF chunks_step_key_trail[OF Cons.prems(1) st] rec] rs show ?case
    by (cases y) simp_all
qed simp

text \<open>
  A blank line and then a continuation line, after an input on which the generator has
  yielded records without raising: the continuation meets an empty \<open>chunk\<close> and a
  current key that names a field of the last record, and \<open>chunk[key] += ...\<close> raises
  \<open>KeyError\<close> for it.
\<close>

lemma chunks_blank_continuation:
  assumes xs: "chunks xs = (rs, None)" and ne: "rs \<noteq> []"
    and b: "\<not> py_startswith b ''#''" "py_strip b = []"
    and l: "l = CHR '' '' # t" "py_strip l \<noteq> []"
  shows "\<exists>k\<in>fst ` set (last rs). chunks (xs @ b # l # ys) = (rs, Some (KeyError k))"
proof -
  obtain rs0 r where loop: "chunks_loop chunks_init xs = (rs0, r)" by fastforce
  with xs obtain s where r: "r = Inr s"
    by (cases r) (auto simp: chunks_def)
  let ?y = "if chunk s \<noteq> [] then [strip_linebreaks (chunk s)] else []"
  from xs loop r have rs: "rs = rs0 @ ?y" by (auto simp: chunks_def)
  from chunks_loop_key_trail[OF key_trail_init] loop r have kt: "key_trail rs0 s" by simp
  have "fst ` set (strip_linebreaks (chunk s)) = fst ` set (chunk s)"
    using map_fst_strip_linebreaks[of "chunk s"] by (metis set_map)
  with kt ne rs obtain k where k: "key s = Some k" and kl: "k \<in> fst ` set (last rs)"
    by (cases "key s"; cases "chunk s = []") (auto simp: key_trail_def)
  have kb: "chunks_step s b = Inr (s\<lparr>chunk := []\<rparr>,
      if chunk s \<noteq> [] then Some (strip_linebreaks (chunk s)) else None)"
    using b by (rule chunks_step_blank)
  have kl2: "chunks_step (s\<lparr>chunk := []\<rparr>) l = Inl (KeyError k)"
    using l k by (simp add: chunks_step_data data_line_cont dict_iadd_missing dict_contains_def)
  have "chunks_loop s (b # l # ys) = (?y, Inl (KeyError k))"
    using kb kl2 by simp
  with loop r rs have "chunks (xs @ b # l # ys) = (rs, Some (KeyError k))"
    by (simp add: chunks_def chunks_loop_append)
  with kl show ?thesis by blast
qed

lemma data_line_error_kind:
  "data_line s l = Inl e \<Longrightarrow> (\<exists>k x. e = SyntaxError k x) \<or> (\<exists>k. e = KeyError k)"
proof (cases "py_startswith l '' ''")
  case True
  then obtain t where "l = CHR '' '' # t" by auto
  moreover assume "data_line s l = Inl e"
  ultimately show ?thesis
    by (cases "key s") (auto simp: data_line_cont_no_key data_line_cont sbind_eq_Inl_iff dict_iadd_Inl)
next
  case False
  assume r: "data_line s l = Inl e"
  show ?thesis
  proof (cases "CHR '':'' \<in> set l")
    case True
    obtain k v where "l = k @ CHR '':'' # v" and "CHR '':'' \<notin> set k"
      using False True by (rule data_line_field_cases)
    with False r show ?thesis by (simp add: data_line_field)
  next
    case no: False
    with False r have "e = SyntaxError ExpectedIdValue l" by (simp add: data_line_malformed)
    then show ?thesis by blast
  qed
qed

lemma chunks_loop_error_kind:
  "chunks_loop s ls = (rs, Inl e) \<Longrightarrow> (\<exists>k x. e = SyntaxError k x) \<or> (\<exists>k. e = KeyError k)"
proof (induction ls arbitrary: s rs)
  case (Cons l ls)
  show ?case
  proof (cases "chunks_step s l")
    case (Inl e')
    with Cons.prems have "e' = e" by simp
    moreover from Inl have "data_line s l = Inl e'"
      by (auto simp: chunks_step_def sbind_eq_Inl_iff split: if_splits)
    ultimately show ?thesis by (simp add: data_line_error_kind)
  next
    case (Inr p)
    obtain s' y where "p = (s', y)" by fastforce
    with Inr Cons.prems obtain rs' where "chunks_loop s' ls = (rs', Inl e)"
      by (cases "chunks_loop s' ls") simp
    then show ?thesis by (rule Cons.IH)
  qed
qed simp

subsection \<open>Properties of one iteration\<close>

text \<open>
  C3 (field-start lines). A line that is not a comment, not blank, does not start with
  a space and holds a colon is split at its first colon into the field name \<open>k\<close> and
  the rest \<open>v\<close>; the left-stripped rest is assigned to \<open>k\<close> when \<open>k\<close> is new in the
  pending record and appended to the stored value when it is not, \<open>k\<close> becomes the
  current key, and nothing is yielded.
\<close>

theorem field_line_assigns_or_appends:
  assumes "\<not> py_startswith l ''#''" and "py_strip l \<noteq> []" and "\<not> py_startswith l '' ''"
    and "l = k @ CHR '':'' # v" and "CHR '':'' \<notin> set k"
  shows "chunks_step s l =
     Inr (s\<lparr>chunk := dict_setitem (chunk s) k
                 (case map_of (chunk s) k of None \<Rightarrow> py_lstrip v | Some v0 \<Rightarrow> v0 @ py_lstrip v),
            key := Some k\<rparr>, None)"
  using assms by (simp add: chunks_step_data data_line_field)

text \<open>
  C4 (continuation lines). A non-blank line starting with a space, read while the current
  key \<open>k\<close> is in the pending record, appends the line with all its leading whitespace
  removed to the value of \<open>k\<close>, keeps the current key and yields nothing.
\<close>

theorem continuation_line_appends:
  assumes "l = CHR '' '' # t" and "py_strip l \<noteq> []" and "key s = Some k"
    and "map_of (chunk s) k = Some v"
  shows "chunks_step s l = Inr (s\<lparr>chunk := dict_setitem (chunk s) k (v @ py_lstrip l)\<rparr>, None)"
  using assms by (simp add: chunks_step_data data_line_cont dict_iadd_present)

text \<open>
  C5 (blank lines). A blank line yields the pending record, with the trailing line feeds
  of its values removed, when that record is non-empty, and empties it; the current key
  is left unchanged.
\<close>

theorem blank_line_yields_pending:
  assumes "\<not> py_startswith l ''#''" and "py_strip l = []"
  shows "chunks_step s l =
     Inr (\<lparr>chunk = [], key = key s\<rparr>,
          if chunk s = [] then None else Some (strip_linebreaks (chunk s)))"
  using assms by (simp add: chunks_step_blank)

text \<open>
  C6 (bad start of a block). A non-blank line starting with a space while no field has
  been read yet raises the \<open>SyntaxError\<close> "Bad start of a data block" with the line.
\<close>

theorem continuation_without_key_raises:
  assumes "l = CHR '' '' # t" and "py_strip l \<noteq> []" and "key s = None"
  shows "chunks_step s l = Inl (SyntaxError BadStart l)"
  using assms by (simp add: chunks_step_data data_line_cont_no_key)

text \<open>
  C7 (malformed lines). A line that is not a comment, not blank, does not start with a
  space and holds no colon raises the \<open>SyntaxError\<close> "Expected id: value" with the line.
\<close>

theorem line_without_colon_raises:
  assumes "\<not> py_startswith l ''#''" and "py_strip l \<noteq> []" and "\<not> py_startswith l '' ''"
    and "CHR '':'' \<notin> set l"
  shows "chunks_step s l = Inl (SyntaxError ExpectedIdValue l)"
  using assms by (simp add: chunks_step_data data_line_malformed)

text \<open>
  C13 (invariant). In every state the loop reaches from the generator's start without
  raising, the invariant of the generator's locals holds.
\<close>

theorem chunks_loop_reaches_inv:
  assumes "chunks_loop chunks_init ls = (rs, Inr s')"
  shows "pending_inv s'"
  using chunks_reach_inv chunks_loop_reach[OF chunks_reach.start assms] by blast

text \<open>
  C2 (records). Every record the generator yields is non-empty, has distinct, well-formed
  field names, and its values are empty or start with a non-whitespace character and do
  not end with a line feed.
\<close>

theorem chunks_records_wf:
  assumes r: "r \<in> set (fst (chunks ls))"
  shows "wf_record r"
proof -
  obtain rs res where loop: "chunks_loop chunks_init ls = (rs, res)" by fastforce
  from chunks_loop_inv[OF pending_inv_init loop]
  have rs: "\<forall>x\<in>set rs. wf_record x" and fin: "\<forall>s'. res = Inr s' \<longrightarrow> pending_inv s'"
    by auto
  show "wf_record r"
  proof (cases res)
    case (Inl e)
    with r rs loop show ?thesis by (simp add: chunks_def)
  next
    case (Inr s')
    with fin have "pending_inv s'" by simp
    with r rs loop Inr show ?thesis
      by (auto simp: chunks_def wf_record_strip_linebreaks split: if_splits)
  qed
qed

text \<open>
  C12 (comments). Comment lines are invisible: removing every line that starts with
  \<open>#\<close> from the input changes neither the records yielded nor the exception raised.
\<close>

theorem chunks_ignore_comments:
  "chunks (filter (\<lambda>l. \<not> py_startswith l ''#'') ls) = chunks ls"
  by (simp add: chunks_def chunks_loop_filter_comments del: py_startswith_Cons)

text \<open>
  C14 (exception kinds). The generator ends with a \<open>SyntaxError\<close> or a
  \<open>KeyError\<close> only: the unpacking \<open>key, val = line.split(':', maxsplit=1)\<close> never
  raises \<open>ValueError\<close>.
\<close>

theorem chunks_error_kinds:
  assumes "snd (chunks ls) = Some e"
  shows "(\<exists>k x. e = SyntaxError k x) \<or> (\<exists>k. e = KeyError k)"
proof -
  obtain rs r where loop: "chunks_loop chunks_init ls = (rs, r)" by fastforce
  with assms obtain rs' where "chunks_loop chunks_init ls = (rs', Inl e)"
    by (cases r) (auto simp: chunks_def split: if_splits)
  then show ?thesis by (rule chunks_loop_error_kind)
qed

text \<open>
  C15 (KeyError at the start of a block). A non-blank line starting with a space, read
  while \<open>chunk\<close> is empty but \<open>key\<close> still names a field (the state after a blank
  line that ended a block), raises \<open>KeyError\<close> for that field.
\<close>

theorem continuation_on_empty_chunk_raises_KeyError:
  assumes "l = CHR '' '' # t" and "py_strip l \<noteq> []" and "key s = Some k" and "chunk s = []"
  shows "chunks_step s l = Inl (KeyError k)"
  using assms by (simp add: chunks_step_data data_line_cont dict_iadd_missing dict_contains_def)

subsection \<open>The properties at concrete inputs\<close>

theorem field_line_assigns_or_appends_witness:
  "\<not> py_startswith ''a: x\<newline>'' ''#'' \<and> py_strip ''a: x\<newline>'' \<noteq> [] \<and>
   \<not> py_startswith ''a: x\<newline>'' '' '' \<and> ''a: x\<newline>'' = ''a'' @ CHR '':'' # '' x\<newline>'' \<and>
   CHR '':'' \<notin> set ''a'' \<and>
   chunks_step \<lparr>chunk = [(''a'', ''w\<newline>'')], key = Some ''a''\<rparr> ''a: x\<newline>'' =
     Inr (\<lparr>chunk = [(''a'', ''w\<newline>x\<newline>'')], key = Some ''a''\<rparr>, None)"
proof -
  let ?s = "\<lparr>chunk = [(''a'', ''w\<newline>'')], key = Some ''a''\<rparr>"
  have h1: "\<not> py_startswith ''a: x\<newline>'' ''#''" and h2: "py_strip ''a: x\<newline>'' \<noteq> []"
    and h3: "\<not> py_startswith ''a: x\<newline>'' '' ''" by (simp_all add: py_simps)
  have h4: "''a: x\<newline>'' = ''a'' @ CHR '':'' # '' x\<newline>''" and h5: "CHR '':'' \<notin> set ''a''"
    by simp_all
  have "chunks_step ?s ''a: x\<newline>'' =
     Inr (\<lparr>chunk = [(''a'', ''w\<newline>x\<newline>'')], key = Some ''a''\<rparr>, None)"
    using field_line_assigns_or_appends[OF h1 h2 h3 h4 h5, of ?s]
    by (simp add: py_simps dict_setitem_def)
  with h1 h2 h3 h4 h5 show ?thesis by blast
qed

theorem continuation_line_appends_witness:
  "''  y\<newline>'' = CHR '' '' # '' y\<newline>'' \<and> py_strip ''  y\<newline>'' \<noteq> [] \<and>
   key \<lparr>chunk = [(''a'', ''x\<newline>'')], key = Some ''a''\<rparr> = Some ''a'' \<and>
   map_of [(''a'', ''x\<newline>'')] ''a'' = Some ''x\<newline>'' \<and>
   chunks_step \<lparr>chunk = [(''a'', ''x\<newline>'')], key = Some ''a''\<rparr> ''  y\<newline>'' =
     Inr (\<lparr>chunk = [(''a'', ''x\<newline>y\<newline>'')], key = Some ''a''\<rparr>, None)"
  using continuation_line_appends[of "''  y\<newline>''" "'' y\<newline>''"
      "\<lparr>chunk = [(''a'', ''x\<newline>'')], key = Some ''a''\<rparr>" "''a''" "''x\<newline>''"]
  by (simp add: py_simps dict_setitem_def)

theorem blank_line_yields_pending_witness:
  "\<not> py_startswith '' \<newline>'' ''#'' \<and> py_strip '' \<newline>'' = [] \<and>
   chunks_step \<lparr>chunk = [(''a'', ''1\<newline>'')], key = Some ''a''\<rparr> '' \<newline>'' =
     Inr (\<lparr>chunk = [], key = Some ''a''\<rparr>, Some [(''a'', ''1'')])"
  using blank_line_yields_pending[of "'' \<newline>''" "\<lparr>chunk = [(''a'', ''1\<newline>'')], key = Some ''a''\<rparr>"]
  by (simp add: py_simps strip_linebreaks_def)

theorem continuation_without_key_raises_witness:
  "'' x: y\<newline>'' = CHR '' '' # ''x: y\<newline>'' \<and> py_strip '' x: y\<newline>'' \<noteq> [] \<and>
   key chunks_init = None \<and>
   chunks_step chunks_init '' x: y\<newline>'' = Inl (SyntaxError BadStart '' x: y\<newline>'')"
  using continuation_without_key_raises[of "'' x: y\<newline>''" "''x: y\<newline>''" chunks_init]
  by (simp add: py_simps chunks_init_def)

theorem line_without_colon_raises_witness:
  "\<not> py_startswith ''novalue\<newline>'' ''#'' \<and> py_strip ''novalue\<newline>'' \<noteq> [] \<and>
   \<not> py_startswith ''novalue\<newline>'' '' '' \<and> CHR '':'' \<notin> set ''novalue\<newline>'' \<and>
   chunks_step chunks_init ''novalue\<newline>'' = Inl (SyntaxError ExpectedIdValue ''novalue\<newline>'')"
  using line_without_colon_raises[of "''novalue\<newline>''" chunks_init]
  by (simp add: py_simps)

theorem chunks_loop_reaches_inv_witness:
  "chunks_loop chunks_init [''a: 1\<newline>'', '' 2\<newline>''] =
     ([], Inr \<lparr>chunk = [(''a'', ''1\<newline>2\<newline>'')], key = Some ''a''\<rparr>) \<and>
   pending_inv \<lparr>chunk = [(''a'', ''1\<newline>2\<newline>'')], key = Some ''a''\<rparr>"
proof -
  have run: "chunks_loop chunks_init [''a: 1\<newline>'', '' 2\<newline>''] =
     ([], Inr \<lparr>chunk = [(''a'', ''1\<newline>2\<newline>'')], key = Some ''a''\<rparr>)"
    by (simp add: chunks_eval py_simps)
  show ?thesis using run chunks_loop_reaches_inv[OF run] by simp
qed

theorem chunks_records_wf_witness:
  "[(''a'', ''x\<newline>y'')] \<in> set (fst (chunks [''a: x\<newline>'', ''a: y\<newline>''])) \<and>
   wf_record [(''a'', ''x\<newline>y'')]"
proof -
  have r: "[(''a'', ''x\<newline>y'')] \<in> set (fst (chunks [''a: x\<newline>'', ''a: y\<newline>'']))"
    by (simp add: chunks_eval py_simps)
  show ?thesis using r chunks_records_wf[OF r] by simp
qed

theorem chunks_error_kinds_witness:
  "snd (chunks [''a: 1\<newline>'', ''\<newline>'', '' x\<newline>'']) = Some (KeyError ''a'') \<and>
   ((\<exists>k x. KeyError ''a'' = SyntaxError k x) \<or> (\<exists>k. KeyError ''a'' = KeyError k))"
proof -
  have e: "snd (chunks [''a: 1\<newline>'', ''\<newline>'', '' x\<newline>'']) = Some (KeyError ''a'')"
    by (simp add: chunks_eval py_simps)
  show ?thesis using e chunks_error_kinds[OF e] by blast
qed

theorem continuation_on_empty_chunk_raises_KeyError_witness:
  "chunks_loop chunks_init [''a: 1\<newline>'', ''\<newline>''] =
     ([[(''a'', ''1'')]], Inr \<lparr>chunk = [], key = Some ''a''\<rparr>) \<and>
   chunks_step \<lparr>chunk = [], key = Some ''a''\<rparr> '' x\<newline>'' = Inl (KeyError ''a'')"
proof -
  have run: "chunks_loop chunks_init [''a: 1\<newline>'', ''\<newline>''] =
     ([[(''a'', ''1'')]], Inr \<lparr>chunk = [], key = Some ''a''\<rparr>)"
    by (simp add: chunks_eval py_simps)
  have "chunks_step \<lparr>chunk = [], key = Some ''a''\<rparr> '' x\<newline>'' = Inl (KeyError ''a'')"
    by (rule continuation_on_empty_chunk_raises_KeyError[of _ "''x\<newline>''"])
       (simp_all add: py_simps)
  with run show ?thesis by simp
qed

end
