(* ===== verification/ChunksSpec.thy ===== *)
theory ChunksSpec
  imports Chunks
begin

text \<open>
  The contract of \<open>chunks\<close> as the format describes it, and the proof that the
  generator implements it. The abstract reading is a batch one: drop the comment lines,
  cut the rest into blocks at blank lines (\<open>blocks\<close>), parse each block on its own
  from an empty record with no current key (\<open>parse_block\<close>), and return the records
  of the blocks in order up to the first block that fails (\<open>spec_run\<close>). The generator
  reads once, keeps one pending record and never looks back; the refinement theorem says
  that it yields exactly the records of the batch reading and fails exactly when it does,
  with the same exception except in one case: a continuation line that opens a block
  after an earlier block raises \<open>KeyError\<close> in the generator where the contract raises
  the \<open>SyntaxError\<close> "Bad start of a data block". Through the contract, the key order
  of every yielded record is read off its block (\<open>block_field_names\<close>, \<open>add_key\<close>).
\<close>

fun split_blocks :: "line list \<Rightarrow> line list \<Rightarrow> line list list" where
  "split_blocks cur [] = (if cur = [] then [] else [cur])"
| "split_blocks cur (l # ls) =
     (if py_startswith l ''#'' then split_blocks cur ls
      else if py_strip l = [] then
        (if cur = [] then split_blocks [] ls else cur # split_blocks [] ls)
      else split_blocks (cur @ [l]) ls)"

definition blocks :: "line list \<Rightarrow> line list list" where
  "blocks ls = split_blocks [] ls"

fun block_fold :: "chunks_state \<Rightarrow> line list \<Rightarrow> py_error + chunks_state" where
  "block_fold s [] = Inr s"
| "block_fold s (l # ls) = sbind (data_line s l) (\<lambda>s'. block_fold s' ls)"

definition parse_block :: "line list \<Rightarrow> py_error + pydict" where
  "parse_block b = sbind (block_fold chunks_init b) (\<lambda>s. Inr (strip_linebreaks (chunk s)))"

fun spec_run :: "line list list \<Rightarrow> pydict list \<times> py_error option" where
  "spec_run [] = ([], None)"
| "spec_run (b # bs) =
     (case parse_block b of
        Inl e \<Rightarrow> ([], Some e)
      | Inr r \<Rightarrow> (case spec_run bs of (rs, e) \<Rightarrow> (r # rs, e)))"

definition spec_chunks :: "line list \<Rightarrow> pydict list \<times> py_error option" where
  "spec_chunks ls = spec_run (blocks ls)"

text \<open>
  The field names of a block in the order its field-start lines give them, and the
  order in which a dictionary that receives them keeps its keys: a name goes last when
  it is new and keeps its place when it is not.
\<close>

definition field_name :: "line \<Rightarrow> string" where
  "field_name l = takeWhile (\<lambda>c. c \<noteq> CHR '':'') l"

definition block_field_names :: "line list \<Rightarrow> string list" where
  "block_field_names b = map field_name (filter (\<lambda>l. \<not> py_startswith l '' '') b)"

definition add_key :: "string list \<Rightarrow> string \<Rightarrow> string list" where
  "add_key ks k = (if k \<in> set ks then ks else ks @ [k])"

text \<open>
  The value of a field as the format describes it, read off a block: the pieces of
  field \<open>k\<close> are the left-stripped text after the first colon of every field-start line
  named \<open>k\<close>, and every left-stripped continuation line that follows such a line before
  the next field-start line (\<open>cur\<close> is the name of the last field-start line). A
  dictionary value that receives them is their concatenation, after what it held before.
\<close>

definition field_value :: "line \<Rightarrow> string" where
  "field_value l = tl (dropWhile (\<lambda>c. c \<noteq> CHR '':'') l)"

fun block_pieces :: "string \<Rightarrow> string option \<Rightarrow> line list \<Rightarrow> string list" where
  "block_pieces k cur [] = []"
| "block_pieces k cur (l # ls) =
     (if py_startswith l '' '' then
        (if cur = Some k then py_lstrip l # block_pieces k cur ls else block_pieces k cur ls)
      else if field_name l = k then py_lstrip (field_value l) # block_pieces k (Some k) ls
      else block_pieces k (Some (field_name l)) ls)"

definition app_pieces :: "string option \<Rightarrow> string list \<Rightarrow> string option" where
  "app_pieces v ps =
     (if ps = [] then v else Some (case v of None \<Rightarrow> concat ps | Some x \<Rightarrow> x @ concat ps))"

text \<open>
  Two outcomes agree when they have the same records and either the same exception or
  the generator's \<open>KeyError\<close> where the contract has the bad-start \<open>SyntaxError\<close>.
\<close>

fun err_match :: "py_error option \<Rightarrow> py_error option \<Rightarrow> bool" where
  "err_match None None = True"
| "err_match (Some (KeyError k)) (Some (SyntaxError BadStart l)) = True"
| "err_match (Some e) (Some e') = (e = e')"
| "err_match _ _ = False"

definition out_match ::
  "pydict list \<times> py_error option \<Rightarrow> pydict list \<times> py_error option \<Rightarrow> bool" where
  "out_match a b \<longleftrightarrow> fst a = fst b \<and> err_match (snd a) (snd b)"

text \<open>The generator's result from any state: the loop, then the final flush.\<close>

definition gen_finish :: "pydict list \<times> (py_error + chunks_state) \<Rightarrow> pydict list \<times> py_error option" where
  "gen_finish p =
     (case p of
        (rs, Inl e) \<Rightarrow> (rs, Some e)
      | (rs, Inr s) \<Rightarrow> ((if chunk s \<noteq> [] then rs @ [strip_linebreaks (chunk s)] else rs), None))"

text \<open>The generator's state stands for the contract's pending block.\<close>

definition block_rel :: "chunks_state \<Rightarrow> line list \<Rightarrow> bool" where
  "block_rel s cur \<longleftrightarrow> (if cur = [] then chunk s = [] else block_fold chunks_init cur = Inr s)"

subsection \<open>Facts of the contract\<close>

lemma block_fold_append:
  "block_fold s (xs @ ys) = sbind (block_fold s xs) (\<lambda>s'. block_fold s' ys)"
  by (induction xs arbitrary: s) (simp_all add: sbind_assoc)

lemma data_line_chunk_nonempty: "data_line s l = Inr s' \<Longrightarrow> chunk s' \<noteq> []"
  by (auto simp: data_line_def sbind_eq_Inr_iff dict_iadd_Inr Let_def
      split: if_splits option.splits list.splits)

lemma block_fold_chunk_nonempty:
  "block_fold s xs = Inr s' \<Longrightarrow> xs \<noteq> [] \<Longrightarrow> chunk s' \<noteq> []"
proof (induction xs arbitrary: s)
  case (Cons x xs)
  then obtain s1 where d: "data_line s x = Inr s1" and r: "block_fold s1 xs = Inr s'"
    by (auto simp: sbind_eq_Inr_iff)
  show ?case
  proof (cases "xs = []")
    case True
    with d r show ?thesis by (simp add: data_line_chunk_nonempty)
  next
    case False
    with r show ?thesis by (rule Cons.IH)
  qed
qed simp

lemma split_blocks_head:
  "cur \<noteq> [] \<Longrightarrow> \<exists>m bs. split_blocks cur ls = (cur @ m) # bs"
proof (induction ls arbitrary: cur)
  case (Cons l ls)
  show ?case
  proof (cases "\<not> py_startswith l ''#'' \<and> py_strip l \<noteq> []")
    case True
    from Cons.prems have "cur @ [l] \<noteq> []" by simp
    from Cons.IH[OF this] obtain m bs where "split_blocks (cur @ [l]) ls = (cur @ [l] @ m) # bs"
      by auto
    with True show ?thesis by (auto simp del: py_startswith_Cons)
  next
    case False
    with Cons show ?thesis by (auto simp del: py_startswith_Cons)
  qed
qed simp

lemma err_match_refl [simp]: "err_match (Some e) (Some e)"
  by (cases e) (auto elim: syntax_kind.exhaust)

subsection \<open>The first line of a block\<close>

text \<open>
  At the start of a block the generator's \<open>chunk\<close> is empty but its \<open>key\<close> may
  still hold the last field of the previous block. On the first data line of a block it
  then behaves as from a fresh state, except that a continuation line raises
  \<open>KeyError\<close> instead of the bad-start \<open>SyntaxError\<close>.
\<close>

lemma data_line_from_empty:
  assumes "chunk s = []" and "\<not> py_startswith l '' ''"
  shows "data_line s l = data_line chunks_init l"
proof (cases "CHR '':'' \<in> set l")
  case True
  obtain k v where l: "l = k @ CHR '':'' # v" and k: "CHR '':'' \<notin> set k"
    using assms(2) True by (rule data_line_field_cases)
  show ?thesis
    using data_line_field[OF assms(2) l k, of s] data_line_field[OF assms(2) l k, of chunks_init]
      assms(1)
    by (cases s) (simp add: chunks_init_def)
next
  case False
  with assms(2) show ?thesis by (simp add: data_line_malformed)
qed

lemma data_line_fresh_Inr:
  assumes "chunk s = []"
  shows "data_line s l = Inr s' \<longleftrightarrow> data_line chunks_init l = Inr s'"
proof (cases "py_startswith l '' ''")
  case True
  then obtain t where l: "l = CHR '' '' # t" by auto
  have "data_line s l \<noteq> Inr s'"
    using assms l
    by (cases "key s") (auto simp: data_line_cont_no_key data_line_cont dict_iadd_missing
        dict_contains_def)
  moreover have "data_line chunks_init l \<noteq> Inr s'"
    using l by (simp add: data_line_cont_no_key chunks_init_def)
  ultimately show ?thesis by blast
next
  case False
  with assms show ?thesis by (simp add: data_line_from_empty)
qed

lemma data_line_fresh_Inl:
  assumes "chunk s = []" and "data_line s l = Inl e"
  shows "\<exists>e'. data_line chunks_init l = Inl e' \<and> err_match (Some e) (Some e')"
proof (cases "py_startswith l '' ''")
  case True
  then obtain t where l: "l = CHR '' '' # t" by auto
  have "e = SyntaxError BadStart l \<or> (\<exists>k. e = KeyError k)"
    using assms l
    by (cases "key s") (auto simp: data_line_cont_no_key data_line_cont dict_iadd_missing
        dict_contains_def)
  moreover have "data_line chunks_init l = Inl (SyntaxError BadStart l)"
    using l by (simp add: data_line_cont_no_key chunks_init_def)
  ultimately show ?thesis by auto
next
  case False
  with assms show ?thesis by (simp add: data_line_from_empty)
qed

subsection \<open>Refinement\<close>

lemma gen_finish_yield:
  "gen_finish (r # rs, x) = (r # fst (gen_finish (rs, x)), snd (gen_finish (rs, x)))"
  by (cases x) (auto simp: gen_finish_def)

lemma gen_finish_step:
  assumes "chunks_step s l = Inr (s', y)"
  shows "gen_finish (chunks_loop s (l # ls)) =
    (case y of None \<Rightarrow> gen_finish (chunks_loop s' ls)
     | Some r \<Rightarrow> (r # fst (gen_finish (chunks_loop s' ls)), snd (gen_finish (chunks_loop s' ls))))"
  using assms by (cases "chunks_loop s' ls") (auto simp: gen_finish_yield split: option.splits)

lemma spec_run_Cons_Inr:
  "parse_block b = Inr r \<Longrightarrow> spec_run (b # bs) = (r # fst (spec_run bs), snd (spec_run bs))"
  by (cases "spec_run bs") simp

lemma spec_run_Cons_Inl: "parse_block b = Inl e \<Longrightarrow> spec_run (b # bs) = ([], Some e)"
  by simp

lemma parse_block_fail_prefix:
  "block_fold chunks_init xs = Inl e \<Longrightarrow> parse_block (xs @ m) = Inl e"
  by (simp add: parse_block_def block_fold_append)

lemma chunks_gen_finish: "chunks ls = gen_finish (chunks_loop chunks_init ls)"
  by (simp add: chunks_def gen_finish_def)

lemma gen_refines_spec:
  "block_rel s cur \<Longrightarrow> out_match (gen_finish (chunks_loop s ls)) (spec_run (split_blocks cur ls))"
proof (induction ls arbitrary: s cur)
  case Nil
  show ?case
  proof (cases "cur = []")
    case True
    with Nil.prems show ?thesis by (simp add: block_rel_def gen_finish_def out_match_def)
  next
    case False
    with Nil.prems have f: "block_fold chunks_init cur = Inr s" by (simp add: block_rel_def)
    from f False have "chunk s \<noteq> []" by (rule block_fold_chunk_nonempty)
    with f False show ?thesis by (simp add: gen_finish_def out_match_def parse_block_def)
  qed
next
  case (Cons l ls)
  consider (comment) "py_startswith l ''#''"
    | (blank) "\<not> py_startswith l ''#''" "py_strip l = []"
    | (data) "\<not> py_startswith l ''#''" "py_strip l \<noteq> []"
    by blast
  then show ?case
  proof cases
    case comment
    then have "chunks_loop s (l # ls) = chunks_loop s ls" by (simp add: chunks_step_comment)
    moreover from comment have "split_blocks cur (l # ls) = split_blocks cur ls" by simp
    ultimately show ?thesis using Cons.IH[OF Cons.prems] by simp
  next
    case blank
    let ?s1 = "s\<lparr>chunk := []\<rparr>"
    have "block_rel ?s1 []" by (simp add: block_rel_def)
    then have IH: "out_match (gen_finish (chunks_loop ?s1 ls)) (spec_run (split_blocks [] ls))"
      by (rule Cons.IH)
    show ?thesis
    proof (cases "cur = []")
      case True
      with Cons.prems have "chunk s = []" by (simp add: block_rel_def)
      with blank have "chunks_step s l = Inr (?s1, None)" by (simp add: chunks_step_blank)
      then have "gen_finish (chunks_loop s (l # ls)) = gen_finish (chunks_loop ?s1 ls)"
        by (simp add: gen_finish_step)
      moreover from blank True have "split_blocks cur (l # ls) = split_blocks [] ls"
        by (simp del: py_startswith_Cons)
      ultimately show ?thesis using IH by simp
    next
      case False
      with Cons.prems have f: "block_fold chunks_init cur = Inr s" by (simp add: block_rel_def)
      from f False have "chunk s \<noteq> []" by (rule block_fold_chunk_nonempty)
      with blank have "chunks_step s l = Inr (?s1, Some (strip_linebreaks (chunk s)))"
        by (simp add: chunks_step_blank)
      then have g: "gen_finish (chunks_loop s (l # ls)) =
          (strip_linebreaks (chunk s) # fst (gen_finish (chunks_loop ?s1 ls)),
           snd (gen_finish (chunks_loop ?s1 ls)))"
        unfolding gen_finish_step[OF \<open>chunks_step s l = _\<close>] by simp
      from f have pb: "parse_block cur = Inr (strip_linebreaks (chunk s))"
        by (simp add: parse_block_def)
      from blank False have "split_blocks cur (l # ls) = cur # split_blocks [] ls"
        by (simp del: py_startswith_Cons)
      then have sp: "spec_run (split_blocks cur (l # ls)) =
          (strip_linebreaks (chunk s) # fst (spec_run (split_blocks [] ls)),
           snd (spec_run (split_blocks [] ls)))"
        using spec_run_Cons_Inr[OF pb] by simp
      show ?thesis using IH unfolding g sp out_match_def by simp
    qed
  next
    case data
    have st: "chunks_step s l = sbind (data_line s l) (\<lambda>s'. Inr (s', None))"
      using data by (simp add: chunks_step_data)
    have sb: "split_blocks cur (l # ls) = split_blocks (cur @ [l]) ls"
      using data by (simp del: py_startswith_Cons)
    show ?thesis
    proof (cases "data_line s l")
      case (Inr s')
      have "block_rel s' (cur @ [l])"
      proof (cases "cur = []")
        case True
        with Cons.prems have "chunk s = []" by (simp add: block_rel_def)
        with Inr True show ?thesis by (simp add: block_rel_def data_line_fresh_Inr)
      next
        case False
        with Cons.prems Inr show ?thesis by (simp add: block_rel_def block_fold_append)
      qed
      then have "out_match (gen_finish (chunks_loop s' ls)) (spec_run (split_blocks (cur @ [l]) ls))"
        by (rule Cons.IH)
      moreover from st Inr have "chunks_step s l = Inr (s', None)" by simp
      ultimately show ?thesis using sb by (simp add: gen_finish_step)
    next
      case (Inl e)
      have "\<exists>e'. block_fold chunks_init (cur @ [l]) = Inl e' \<and> err_match (Some e) (Some e')"
      proof (cases "cur = []")
        case True
        with Cons.prems have "chunk s = []" by (simp add: block_rel_def)
        from data_line_fresh_Inl[OF this Inl] True show ?thesis by simp
      next
        case False
        with Cons.prems Inl show ?thesis by (simp add: block_rel_def block_fold_append)
      qed
      then obtain e' where f: "block_fold chunks_init (cur @ [l]) = Inl e'"
        and m: "err_match (Some e) (Some e')" by blast
      obtain m bs where sp: "split_blocks (cur @ [l]) ls = ((cur @ [l]) @ m) # bs"
        using split_blocks_head[of "cur @ [l]" ls] by auto
      have "spec_run (split_blocks (cur @ [l]) ls) = ([], Some e')"
        unfolding sp using parse_block_fail_prefix[OF f, of m] by (rule spec_run_Cons_Inl)
      moreover from st Inl have "gen_finish (chunks_loop s (l # ls)) = ([], Some e)"
        by (simp add: gen_finish_def)
      ultimately show ?thesis using sb m by (simp add: out_match_def)
    qed
  qed
qed

lemma block_rel_init: "block_rel chunks_init []"
  by (simp add: block_rel_def chunks_init_def)

lemma chunks_out_match: "out_match (chunks ls) (spec_chunks ls)"
  unfolding chunks_gen_finish spec_chunks_def blocks_def
  using block_rel_init by (rule gen_refines_spec)

lemma err_match_None_iff: "err_match e e' \<Longrightarrow> e = None \<longleftrightarrow> e' = None"
  by (cases e; cases e') auto

lemma split_blocks_nonempty: "b \<in> set (split_blocks cur ls) \<Longrightarrow> b \<noteq> []"
  by (induction cur ls rule: split_blocks.induct) (auto split: if_splits)

lemma spec_run_length:
  "snd (spec_run bs) = None \<Longrightarrow> length (fst (spec_run bs)) = length bs"
  by (induction bs) (auto split: sum.splits prod.splits)

text \<open>
  C1 (refinement). The generator implements the batch contract: it yields exactly the
  records of parsing every block of non-comment lines between blank lines on its own, up
  to the first block that fails, and it raises exactly when the contract fails, with the
  same exception or with \<open>KeyError\<close> where the contract has the bad-start
  \<open>SyntaxError\<close>.
\<close>

theorem chunks_refines_spec:
  "fst (chunks ls) = fst (spec_chunks ls) \<and> err_match (snd (chunks ls)) (snd (spec_chunks ls))"
  using chunks_out_match[of ls] by (simp add: out_match_def)

text \<open>
  C8 (record count). When the generator raises nothing, it yields one record per block,
  and every block (a maximal run of non-comment lines between blank lines) is non-empty:
  leading, trailing and repeated blank lines produce no record.
\<close>

theorem chunks_record_count:
  assumes "snd (chunks ls) = None"
  shows "length (fst (chunks ls)) = length (blocks ls) \<and> (\<forall>b\<in>set (blocks ls). b \<noteq> [])"
proof -
  from chunks_out_match[of ls] have f: "fst (chunks ls) = fst (spec_chunks ls)"
    and e: "err_match (snd (chunks ls)) (snd (spec_chunks ls))"
    by (simp_all add: out_match_def)
  from err_match_None_iff[OF e] assms have "snd (spec_run (blocks ls)) = None"
    by (simp add: spec_chunks_def)
  then have "length (fst (spec_run (blocks ls))) = length (blocks ls)" by (rule spec_run_length)
  with f show ?thesis by (simp add: spec_chunks_def blocks_def split_blocks_nonempty)
qed

theorem chunks_record_count_witness:
  "snd (chunks [''# c'', ''a: 1\<newline>'', ''\<newline>'', ''\<newline>'', ''b: 2\<newline>'', '' x\<newline>'']) = None \<and>
   length (fst (chunks [''# c'', ''a: 1\<newline>'', ''\<newline>'', ''\<newline>'', ''b: 2\<newline>'', '' x\<newline>''])) = 2 \<and>
   length (blocks [''# c'', ''a: 1\<newline>'', ''\<newline>'', ''\<newline>'', ''b: 2\<newline>'', '' x\<newline>'']) = 2"
proof -
  let ?ls = "[''# c'', ''a: 1\<newline>'', ''\<newline>'', ''\<newline>'', ''b: 2\<newline>'', '' x\<newline>'']"
  have ok: "snd (chunks ?ls) = None" by (simp add: chunks_eval py_simps)
  have two: "length (fst (chunks ?ls)) = 2" by (simp add: chunks_eval py_simps)
  from chunks_record_count[OF ok] two ok show ?thesis by simp
qed

subsection \<open>Key order\<close>

lemma field_name_split: "CHR '':'' \<notin> set k \<Longrightarrow> field_name (k @ CHR '':'' # v) = k"
  by (induction k) (auto simp: field_name_def)

lemma data_line_keys:
  assumes r: "data_line s l = Inr s'"
  shows "map fst (chunk s') =
    (if py_startswith l '' '' then map fst (chunk s) else add_key (map fst (chunk s)) (field_name l))"
proof (cases "py_startswith l '' ''")
  case True
  then obtain t where l: "l = CHR '' '' # t" by auto
  obtain k where kk: "key s = Some k"
    using r l by (cases "key s") (auto simp: data_line_cont_no_key)
  from r l kk obtain v0 where v0: "map_of (chunk s) k = Some v0"
    and s': "chunk s' = dict_setitem (chunk s) k (v0 @ py_lstrip l)"
    by (auto simp: data_line_cont sbind_eq_Inr_iff dict_iadd_Inr)
  from v0 have "k \<in> set (map fst (chunk s))"
    by (metis map_of_SomeD image_eqI fst_conv set_map)
  with True s' show ?thesis by (simp add: keys_order_dict_setitem)
next
  case False
  have colon: "CHR '':'' \<in> set l"
    using r False by (cases "CHR '':'' \<in> set l") (auto simp: data_line_malformed)
  obtain k v where l: "l = k @ CHR '':'' # v" and k: "CHR '':'' \<notin> set k"
    using False colon by (rule data_line_field_cases)
  from r data_line_field[OF False l k]
  have "map fst (chunk s') = map fst (dict_setitem (chunk s) k
      (case map_of (chunk s) k of None \<Rightarrow> py_lstrip v | Some v0 \<Rightarrow> v0 @ py_lstrip v))"
    by auto
  with False l k show ?thesis
    by (simp add: keys_order_dict_setitem add_key_def field_name_split del: py_startswith_Cons)
qed

lemma block_fold_keys:
  "block_fold s b = Inr s' \<Longrightarrow>
   map fst (chunk s') = foldl add_key (map fst (chunk s)) (block_field_names b)"
proof (induction b arbitrary: s)
  case (Cons l b)
  then obtain s1 where d: "data_line s l = Inr s1" and r: "block_fold s1 b = Inr s'"
    by (auto simp: sbind_eq_Inr_iff)
  from Cons.IH[OF r] data_line_keys[OF d] show ?case
    by (simp add: block_field_names_def del: py_startswith_Cons split: if_splits)
qed (simp add: block_field_names_def)

lemma parse_block_keys:
  "parse_block b = Inr r \<Longrightarrow> map fst r = foldl add_key [] (block_field_names b)"
  using block_fold_keys[of chunks_init b]
  by (auto simp: parse_block_def sbind_eq_Inr_iff chunks_init_def)

lemma spec_run_nth:
  "i < length (fst (spec_run bs)) \<Longrightarrow>
   i < length bs \<and> parse_block (bs ! i) = Inr (fst (spec_run bs) ! i)"
proof (induction bs arbitrary: i)
  case (Cons b bs)
  show ?case
  proof (cases "parse_block b")
    case (Inl e)
    with Cons.prems show ?thesis by simp
  next
    case (Inr r)
    then have sr: "fst (spec_run (b # bs)) = r # fst (spec_run bs)"
      using spec_run_Cons_Inr[OF Inr, of bs] by simp
    show ?thesis
    proof (cases i)
      case 0
      with Inr sr show ?thesis by simp
    next
      case (Suc j)
      with Cons.prems sr have "j < length (fst (spec_run bs))" by simp
      with Cons.IH[of j] Suc sr show ?thesis by simp
    qed
  qed
qed simp

text \<open>
  C9 (key order). The field names of every record the generator yields come in the
  order of their first field-start line in the record's block: a repeated name keeps
  the place of its first occurrence.
\<close>

theorem chunks_record_key_order:
  assumes "i < length (fst (chunks ls))"
  shows "i < length (blocks ls) \<and>
    map fst (fst (chunks ls) ! i) = foldl add_key [] (block_field_names (blocks ls ! i))"
proof -
  from chunks_out_match[of ls] have "fst (chunks ls) = fst (spec_run (blocks ls))"
    by (simp add: out_match_def spec_chunks_def)
  with assms spec_run_nth[of i "blocks ls"]
  have "i < length (blocks ls)" and "parse_block (blocks ls ! i) = Inr (fst (chunks ls) ! i)"
    by simp_all
  then show ?thesis by (simp add: parse_block_keys)
qed

theorem chunks_record_key_order_witness:
  "0 < length (fst (chunks [''b: 1\<newline>'', ''a: 2\<newline>'', ''b: 3\<newline>''])) \<and>
   map fst (fst (chunks [''b: 1\<newline>'', ''a: 2\<newline>'', ''b: 3\<newline>'']) ! 0) = [''b'', ''a''] \<and>
   foldl add_key [] (block_field_names (blocks [''b: 1\<newline>'', ''a: 2\<newline>'', ''b: 3\<newline>''] ! 0)) =
     [''b'', ''a'']"
proof -
  let ?ls = "[''b: 1\<newline>'', ''a: 2\<newline>'', ''b: 3\<newline>'']"
  have h: "0 < length (fst (chunks ?ls))" by (simp add: chunks_eval py_simps)
  have k: "map fst (fst (chunks ?ls) ! 0) = [''b'', ''a'']" by (simp add: chunks_eval py_simps)
  from chunks_record_key_order[OF h] h k show ?thesis by simp
qed

subsection \<open>Values\<close>

lemma field_value_split: "CHR '':'' \<notin> set k \<Longrightarrow> field_value (k @ CHR '':'' # v) = v"
  by (induction k) (auto simp: field_value_def)

lemma app_pieces_append: "app_pieces v (ps @ qs) = app_pieces (app_pieces v ps) qs"
  by (auto simp: app_pieces_def split: option.split)

lemma app_pieces_single:
  "app_pieces v [p] = Some (case v of None \<Rightarrow> p | Some x \<Rightarrow> x @ p)"
  by (simp add: app_pieces_def split: option.split)

text \<open>One data line contributes at most one piece to a field, after what it held.\<close>

lemma data_line_values:
  assumes r: "data_line s l = Inr s'"
  shows "\<exists>ps. block_pieces k (key s) (l # b) = ps @ block_pieces k (key s') b \<and>
              map_of (chunk s') k = app_pieces (map_of (chunk s) k) ps"
proof (cases "py_startswith l '' ''")
  case True
  then obtain t where l: "l = CHR '' '' # t" by auto
  obtain k0 where kk: "key s = Some k0"
    using r l by (cases "key s") (auto simp: data_line_cont_no_key)
  from r l kk obtain v0 where v0: "map_of (chunk s) k0 = Some v0"
    and s': "s' = s\<lparr>chunk := dict_setitem (chunk s) k0 (v0 @ py_lstrip l)\<rparr>"
    by (auto simp: data_line_cont sbind_eq_Inr_iff dict_iadd_Inr)
  show ?thesis
  proof (cases "k0 = k")
    case True
    with l kk v0 s' show ?thesis
      by (intro exI[of _ "[py_lstrip l]"]) (simp add: app_pieces_single)
  next
    case False
    with l kk s' show ?thesis
      by (intro exI[of _ "[]"]) (simp add: app_pieces_def)
  qed
next
  case False
  have colon: "CHR '':'' \<in> set l"
    using r False by (cases "CHR '':'' \<in> set l") (auto simp: data_line_malformed)
  obtain n v where l: "l = n @ CHR '':'' # v" and n: "CHR '':'' \<notin> set n"
    using False colon by (rule data_line_field_cases)
  from r data_line_field[OF False l n]
  have s': "s' = s\<lparr>chunk := dict_setitem (chunk s) n
      (case map_of (chunk s) n of None \<Rightarrow> py_lstrip v | Some v0 \<Rightarrow> v0 @ py_lstrip v),
      key := Some n\<rparr>" by simp
  have fn: "field_name l = n" and fv: "field_value l = v"
    using l n by (simp_all add: field_name_split field_value_split)
  show ?thesis
  proof (cases "n = k")
    case True
    with False s' fn fv show ?thesis
      by (intro exI[of _ "[py_lstrip v]"])
         (simp add: app_pieces_single del: py_startswith_Cons split: option.split)
  next
    case nk: False
    with False s' fn show ?thesis
      by (intro exI[of _ "[]"]) (simp add: app_pieces_def del: py_startswith_Cons)
  qed
qed

lemma block_fold_values:
  "block_fold s b = Inr s' \<Longrightarrow>
   map_of (chunk s') k = app_pieces (map_of (chunk s) k) (block_pieces k (key s) b)"
proof (induction b arbitrary: s)
  case Nil
  then show ?case by (simp add: app_pieces_def)
next
  case (Cons l b)
  then obtain s1 where d: "data_line s l = Inr s1" and r: "block_fold s1 b = Inr s'"
    by (auto simp: sbind_eq_Inr_iff)
  from data_line_values[OF d, of k b] obtain ps
    where p: "block_pieces k (key s) (l # b) = ps @ block_pieces k (key s1) b"
      and m: "map_of (chunk s1) k = app_pieces (map_of (chunk s) k) ps" by blast
  from Cons.IH[OF r] p m show ?case by (simp add: app_pieces_append)
qed

lemma parse_block_values:
  "parse_block b = Inr r \<Longrightarrow>
   map_of r k = (if block_pieces k None b = [] then None
                 else Some (py_rstrip_chars ''\<newline>'' (concat (block_pieces k None b))))"
  using block_fold_values[of chunks_init b _ k]
  by (auto simp: parse_block_def sbind_eq_Inr_iff chunks_init_def map_of_strip_linebreaks
      app_pieces_def)

text \<open>
  C10 (values). In every record the generator yields, the value of a field \<open>k\<close> is
  present exactly when the record's block has a piece for \<open>k\<close>, and it is then the
  concatenation of those pieces, without separator and in input order, with its trailing
  line feeds removed: a repeated field name appends, a continuation line belongs to the
  last field-start line above it, and every piece is left-stripped.
\<close>

theorem chunks_record_values:
  assumes "i < length (fst (chunks ls))"
  shows "i < length (blocks ls) \<and>
    map_of (fst (chunks ls) ! i) k =
      (if block_pieces k None (blocks ls ! i) = [] then None
       else Some (py_rstrip_chars ''\<newline>'' (concat (block_pieces k None (blocks ls ! i)))))"
proof -
  from chunks_out_match[of ls] have "fst (chunks ls) = fst (spec_run (blocks ls))"
    by (simp add: out_match_def spec_chunks_def)
  with assms spec_run_nth[of i "blocks ls"]
  have "i < length (blocks ls)" and "parse_block (blocks ls ! i) = Inr (fst (chunks ls) ! i)"
    by simp_all
  then show ?thesis by (simp add: parse_block_values)
qed

theorem chunks_record_values_witness:
  "0 < length (fst (chunks [''a: x\<newline>'', '' y\<newline>'', ''b: 1\<newline>'', ''a: z\<newline>''])) \<and>
   map_of (fst (chunks [''a: x\<newline>'', '' y\<newline>'', ''b: 1\<newline>'', ''a: z\<newline>'']) ! 0) ''a'' =
     Some ''x\<newline>y\<newline>z'' \<and>
   block_pieces ''a'' None (blocks [''a: x\<newline>'', '' y\<newline>'', ''b: 1\<newline>'', ''a: z\<newline>''] ! 0) =
     [''x\<newline>'', ''y\<newline>'', ''z\<newline>'']"
proof -
  let ?ls = "[''a: x\<newline>'', '' y\<newline>'', ''b: 1\<newline>'', ''a: z\<newline>'']"
  have h: "0 < length (fst (chunks ?ls))" by (simp add: chunks_eval py_simps)
  have p: "block_pieces ''a'' None (blocks ?ls ! 0) = [''x\<newline>'', ''y\<newline>'', ''z\<newline>'']"
    by (simp add: blocks_def field_name_def field_value_def py_simps)
  from chunks_record_values[OF h, of "''a''"] h p show ?thesis by (simp add: py_simps)
qed

subsection \<open>A blank line followed by a continuation line\<close>

lemma split_blocks_blank_append:
  "\<not> py_startswith b ''#'' \<Longrightarrow> py_strip b = [] \<Longrightarrow>
   split_blocks cur (xs @ b # ys) = split_blocks cur xs @ split_blocks [] ys"
  by (induction cur xs rule: split_blocks.induct) (auto simp del: py_startswith_Cons)

lemma spec_run_append:
  "snd (spec_run as) = None \<Longrightarrow>
   spec_run (as @ bs) = (fst (spec_run as) @ fst (spec_run bs), snd (spec_run bs))"
proof (induction as)
  case (Cons a as)
  then obtain r where pb: "parse_block a = Inr r"
    by (cases "parse_block a") (auto simp: spec_run_Cons_Inl)
  have e1: "spec_run ((a # as) @ bs) = (r # fst (spec_run (as @ bs)), snd (spec_run (as @ bs)))"
    using spec_run_Cons_Inr[OF pb, of "as @ bs"] by simp
  have e2: "spec_run (a # as) = (r # fst (spec_run as), snd (spec_run as))"
    by (rule spec_run_Cons_Inr[OF pb])
  from Cons.prems e2 have "snd (spec_run as) = None" by simp
  with Cons.IH show ?case unfolding e1 e2 by simp
qed simp

text \<open>
  The contract on the same input: the continuation line opens a block, whose parse
  raises the bad-start \<open>SyntaxError\<close> with that line.
\<close>

lemma spec_chunks_blank_continuation:
  assumes xs: "spec_chunks xs = (rs, None)"
    and b: "\<not> py_startswith b ''#''" "py_strip b = []"
    and l: "l = CHR '' '' # t" "py_strip l \<noteq> []"
  shows "spec_chunks (xs @ b # l # ys) = (rs, Some (SyntaxError BadStart l))"
proof -
  obtain m bs where sb: "split_blocks [l] ys = ([l] @ m) # bs"
    using split_blocks_head[of "[l]" ys] by auto
  from l have "split_blocks [] (l # ys) = split_blocks [l] ys" by simp
  with sb have tail: "split_blocks [] (l # ys) = (l # m) # bs" by simp
  have pb: "parse_block (l # m) = Inl (SyntaxError BadStart l)"
    using l by (simp add: parse_block_def data_line_cont_no_key chunks_init_def)
  have "spec_run (split_blocks [] (l # ys)) = ([], Some (SyntaxError BadStart l))"
    unfolding tail using pb by (rule spec_run_Cons_Inl)
  with xs b show ?thesis
    by (simp add: spec_chunks_def blocks_def split_blocks_blank_append spec_run_append)
qed

end
