(* ===== verification/ParseFile.thy ===== *)
theory ParseFile
  imports Chunks
begin

text \<open>
  The source adapter \<open>parse_file(path)\<close> of \<open>src/parser.py\<close> (lines 44 to 56):
  the choice of opener by the lower-cased suffix of the path, and
  \<open>yield from chunks(file_obj)\<close> on the opened stream. Opening,
  decompression and decoding are the library's: the model takes them as a parameter
  \<open>fs\<close>, which says for a path and an opener whether opening raises \<open>OSError\<close>,
  whether reading the opened stream raises it (\<open>gzip.open\<close> opens lazily, so a bad
  archive fails on reading), or which decoded text it delivers. \<open>chunks\<close> calls
  \<open>readlines()\<close> before its loop (line 15), so a read error comes before any record.
\<close>

datatype opener =
    GzipText  \<comment> \<open>\<open>gzip.open(path, 'rt')\<close>, line 51\<close>
  | PlainText \<comment> \<open>\<open>open(path, 'r', buffering=1, encoding='utf-8-sig')\<close>, line 54\<close>

datatype io_outcome = OpenFails | ReadFails | Delivers string

type_synonym filesystem = "string \<Rightarrow> opener \<Rightarrow> io_outcome"

definition select_opener :: "string \<Rightarrow> opener" where
  "select_opener path = (if py_endswith (py_lower path) ''.gz'' then GzipText else PlainText)"

text \<open>The records \<open>parse_file\<close> yields and the exception that ends it.\<close>

definition parse_file :: "filesystem \<Rightarrow> string \<Rightarrow> pydict list \<times> py_error option" where
  "parse_file fs path =
     (case fs path (select_opener path) of
        OpenFails \<Rightarrow> ([], Some (OSError path))
      | ReadFails \<Rightarrow> ([], Some (OSError path))
      | Delivers text \<Rightarrow> chunks_text text)"

lemma of_char_py_lower_char:
  fixes c :: char
  defines "n \<equiv> of_char c :: nat"
  shows "of_char (py_lower_char c) =
     (if (65 \<le> n \<and> n \<le> 90) \<or> (192 \<le> n \<and> n \<le> 222 \<and> n \<noteq> 215) then n + 32 else n)"
proof (cases "(65 \<le> n \<and> n \<le> 90) \<or> (192 \<le> n \<and> n \<le> 222 \<and> n \<noteq> 215)")
  case True
  then have "n + 32 < 256" by auto
  with True show ?thesis by (simp add: py_lower_char_def n_def Let_def)
next
  case False
  then have "py_lower_char c = c" by (auto simp: py_lower_char_def n_def Let_def)
  with False show ?thesis by (auto simp: n_def)
qed

lemma py_lower_char_code_iff:
  "py_lower_char c = d \<longleftrightarrow> of_char (py_lower_char c) = (of_char d :: nat)"
  by (simp only: of_char_eq_iff)

lemma py_lower_char_eq_dot: "py_lower_char c = CHR ''.'' \<longleftrightarrow> c = CHR ''.''"
proof -
  have "py_lower_char c = CHR ''.'' \<longleftrightarrow> of_char (py_lower_char c) = (46 :: nat)"
    by (simp add: py_lower_char_code_iff)
  also have "\<dots> \<longleftrightarrow> (of_char c :: nat) = 46"
    by (auto simp: of_char_py_lower_char)
  also have "\<dots> \<longleftrightarrow> c = CHR ''.''"
    using of_char_eq_iff[where 'a = nat, of c "CHR ''.''"] by simp
  finally show ?thesis .
qed

lemma py_lower_char_eq_g: "py_lower_char c = CHR ''g'' \<longleftrightarrow> c = CHR ''g'' \<or> c = CHR ''G''"
proof -
  have "py_lower_char c = CHR ''g'' \<longleftrightarrow> of_char (py_lower_char c) = (103 :: nat)"
    by (simp add: py_lower_char_code_iff)
  also have "\<dots> \<longleftrightarrow> (of_char c :: nat) = 103 \<or> (of_char c :: nat) = 71"
    by (auto simp: of_char_py_lower_char)
  also have "\<dots> \<longleftrightarrow> c = CHR ''g'' \<or> c = CHR ''G''"
    using of_char_eq_iff[where 'a = nat, of c "CHR ''g''"]
      of_char_eq_iff[where 'a = nat, of c "CHR ''G''"] by simp
  finally show ?thesis .
qed

lemma py_lower_char_eq_z: "py_lower_char c = CHR ''z'' \<longleftrightarrow> c = CHR ''z'' \<or> c = CHR ''Z''"
proof -
  have "py_lower_char c = CHR ''z'' \<longleftrightarrow> of_char (py_lower_char c) = (122 :: nat)"
    by (simp add: py_lower_char_code_iff)
  also have "\<dots> \<longleftrightarrow> (of_char c :: nat) = 122 \<or> (of_char c :: nat) = 90"
    by (auto simp: of_char_py_lower_char)
  also have "\<dots> \<longleftrightarrow> c = CHR ''z'' \<or> c = CHR ''Z''"
    using of_char_eq_iff[where 'a = nat, of c "CHR ''z''"]
      of_char_eq_iff[where 'a = nat, of c "CHR ''Z''"] by simp
  finally show ?thesis .
qed

subsection \<open>The choice of opener\<close>

lemma py_endswith_lower_3:
  "py_endswith (py_lower path) [x, y, z] \<longleftrightarrow>
   (\<exists>q a b c. path = q @ [a, b, c] \<and>
      py_lower_char a = x \<and> py_lower_char b = y \<and> py_lower_char c = z)"
proof
  assume e: "py_endswith (py_lower path) [x, y, z]"
  let ?n = "length path - 3"
  from e have len: "3 \<le> length path"
    and d: "map py_lower_char (drop ?n path) = [x, y, z]"
    by (simp_all add: py_endswith_def py_lower_def drop_map numeral_3_eq_3)
  from d obtain a b c where abc: "drop ?n path = [a, b, c]"
    and "py_lower_char a = x" "py_lower_char b = y" "py_lower_char c = z"
    by (auto simp: map_eq_Cons_conv)
  moreover have "path = take ?n path @ [a, b, c]"
    using abc append_take_drop_id[of ?n path] by simp
  ultimately show "\<exists>q a b c. path = q @ [a, b, c] \<and>
      py_lower_char a = x \<and> py_lower_char b = y \<and> py_lower_char c = z"
    by blast
next
  assume "\<exists>q a b c. path = q @ [a, b, c] \<and>
      py_lower_char a = x \<and> py_lower_char b = y \<and> py_lower_char c = z"
  then obtain q a b c where "path = q @ [a, b, c]"
    and "py_lower_char a = x" "py_lower_char b = y" "py_lower_char c = z" by blast
  then show "py_endswith (py_lower path) [x, y, z]"
    by (simp add: py_endswith_def py_lower_def)
qed

text \<open>
  C16 (opener). \<open>parse_file\<close> decompresses with \<open>gzip\<close> exactly when the path ends
  in a dot followed by \<open>g\<close> or \<open>G\<close> and then \<open>z\<close> or \<open>Z\<close>: the suffix test
  \<open>path.lower().endswith('.gz')\<close> is case-insensitive and nothing else is.
\<close>

theorem select_opener_gzip_iff:
  "select_opener path = GzipText \<longleftrightarrow>
   (\<exists>q a b. path = q @ [CHR ''.'', a, b] \<and>
      (a = CHR ''g'' \<or> a = CHR ''G'') \<and> (b = CHR ''z'' \<or> b = CHR ''Z''))"
proof -
  have "select_opener path = GzipText \<longleftrightarrow> py_endswith (py_lower path) [CHR ''.'', CHR ''g'', CHR ''z'']"
    by (simp add: select_opener_def)
  also have "\<dots> \<longleftrightarrow> (\<exists>q a b c. path = q @ [a, b, c] \<and>
      py_lower_char a = CHR ''.'' \<and> py_lower_char b = CHR ''g'' \<and> py_lower_char c = CHR ''z'')"
    by (rule py_endswith_lower_3)
  also have "\<dots> \<longleftrightarrow> (\<exists>q a b. path = q @ [CHR ''.'', a, b] \<and>
      (a = CHR ''g'' \<or> a = CHR ''G'') \<and> (b = CHR ''z'' \<or> b = CHR ''Z''))"
    by (simp add: py_lower_char_eq_dot py_lower_char_eq_g py_lower_char_eq_z)
  finally show ?thesis .
qed

end
