(* ===== verification/Spec2Isabelle.thy ===== *)
theory Spec2Isabelle
  imports ChunksSpec ParseFile
begin

text \<open>
  \<^bold>\<open>A verification development of \<open>src/parser.py\<close>.\<close>

  \<^medskip>
  \<^bold>\<open>The program.\<close> \<open>src/parser.py\<close> reads a text format of records: blocks of
  \<open>key: value\<close> lines separated by blank lines, with \<open>#\<close> comment lines and
  continuation lines that start with a space. Its parts, and how they call each other:
  \<^item> \<open>chunks(file_obj)\<close> (lines 8 to 41), a generator that reads all lines of a text
    stream with \<open>readlines()\<close>, walks them once front to back keeping a pending
    dictionary \<open>chunk\<close> and the last field name \<open>key\<close>, and yields one dictionary
    per non-empty block; it raises \<open>SyntaxError\<close> on a continuation line before any
    field and on a non-indented line without colon;
  \<^item> \<open>strip_linebreaks(chunk)\<close> (lines 59 to 64), called by \<open>chunks\<close> on every
    record it yields, which removes the trailing line feeds of every value;
  \<^item> \<open>parse_file(path)\<close> (lines 44 to 56), which chooses \<open>gzip.open\<close> when the
    lower-cased path ends in \<open>.gz\<close> and \<open>open(..., encoding='utf-8-sig')\<close>
    otherwise, and yields from \<open>chunks\<close> on the opened stream;
  \<^item> the \<open>__main__\<close> block (lines 67 to 69), which prints the records of
    \<open>example.txt\<close>.

  \<^medskip>
  \<^bold>\<open>The theories, in import order.\<close>
  \<^item> \<open>Prelude\<close>: the types \<open>line\<close> and \<open>pydict\<close> (a Python dictionary as an
    association list, insertion-ordered as in Python 3.7 and later), the exceptions
    \<open>py_error\<close> (\<open>SyntaxError\<close> with the kind of message and the line,
    \<open>KeyError\<close>, \<open>ValueError\<close>, \<open>OSError\<close>), the bind \<open>sbind\<close> of the error
    sum \<open>py_error + 'a\<close> through which every raising operation is threaded, and list
    and association-list lemmas.
  \<^item> \<open>PyStr\<close>: the \<open>str\<close> built-ins the parser calls (\<open>strip\<close>, \<open>lstrip\<close>,
    \<open>rstrip\<close>, \<open>rstrip(chars)\<close>, \<open>startswith\<close>, \<open>endswith\<close>,
    \<open>split(':', maxsplit=1)\<close>, \<open>lower\<close>), \<open>readlines\<close>, and the facts on each
    that the parser's proofs use.
  \<^item> \<open>PyDict\<close>: \<open>k in d\<close>, \<open>d[k]\<close> (raising \<open>KeyError\<close>), \<open>d[k] = v\<close>,
    \<open>d[k] += x\<close>.
  \<^item> \<open>Chunks\<close>: the generator. Its locals are the record \<open>chunks_state\<close>; one
    iteration of the \<open>for\<close> loop is \<open>chunks_step\<close> (lines 16 to 37), returning the
    next state and the record yielded, or the exception; its part after the comment and
    blank tests is \<open>data_line\<close> (lines 23 to 37); the loop is \<open>chunks_loop\<close>;
    the generator is \<open>chunks\<close>, whose value is the list of records yielded, in order,
    and the exception that ended it, if any (so the records a consumer receives before an
    exception are part of the result); \<open>chunks_text\<close> runs it on a text through
    \<open>readlines\<close>. \<open>chunks_reach\<close> is the inductive set of states the loop reaches;
    \<open>pending_inv\<close> is the invariant of the locals and \<open>key_trail\<close> relates the
    current key to the records yielded so far.
  \<^item> \<open>ChunksSpec\<close>: the contract of \<open>chunks\<close> as a batch computation
    (\<open>blocks\<close> cuts the non-comment lines at blank lines, \<open>parse_block\<close> parses a
    block from a fresh state, \<open>spec_run\<close> collects the records up to the first
    failing block), the refinement proof, and the content of each record read off its
    block: the order of its field names (\<open>block_field_names\<close>, \<open>add_key\<close>) and the
    value of each field (\<open>block_pieces\<close>).
  \<^item> \<open>ParseFile\<close>: \<open>select_opener\<close> and \<open>parse_file\<close> (records and exception).
    The file system is a parameter saying whether opening or reading raises, or which
    decoded text is delivered.
  \<^item> this theory: the header, and the behaviour of the generator against the contract
    across blocks.

  \<^medskip>
  \<^bold>\<open>What is proved.\<close>
  \<^item> One iteration (\<open>Chunks\<close>): the behaviour on field-start lines (split at the
    first colon, assign a new key, append to a repeated one), continuation lines (append
    the left-stripped line), blank lines (yield the finalised record, empty
    \<open>chunk\<close>, keep \<open>key\<close>), the two \<open>SyntaxError\<close>s, and the \<open>KeyError\<close> of a
    continuation line that meets an empty \<open>chunk\<close>.
  \<^item> The generator (\<open>Chunks\<close>): an invariant of its locals (distinct, well-formed
    keys; left-stripped values; a non-empty \<open>chunk\<close> holds \<open>key\<close>) holds in every
    reachable state (rule induction over \<open>chunks_reach\<close>); every yielded record is
    non-empty with distinct well-formed keys and values without trailing line feed;
    comment lines are invisible; it only ever raises \<open>SyntaxError\<close> or \<open>KeyError\<close>.
  \<^item> Refinement (\<open>ChunksSpec\<close>): the generator yields exactly the contract's
    records and fails exactly when the contract does, with the same exception except that
    it raises \<open>KeyError\<close> where the contract raises the bad-start \<open>SyntaxError\<close>;
    when it succeeds it yields one record per block. Through the contract, the \<open>i\<close>-th
    record has the field names of the \<open>i\<close>-th block in order of first occurrence, and
    each value is the concatenation of the field's left-stripped pieces (the text after
    the colon of each of its field-start lines and the continuation lines below them)
    with the trailing line feeds removed.
  \<^item> Across blocks (this theory): after any input that yielded records, a blank line and
    a continuation line make the generator raise \<open>KeyError\<close> for a field of the last
    record where the contract raises the bad-start \<open>SyntaxError\<close> (a bug: the blank
    line resets \<open>chunk\<close> but not \<open>key\<close>).
  \<^item> The adapter (\<open>ParseFile\<close>): \<open>gzip\<close> is chosen exactly for the suffixes
    \<open>.gz\<close> in any letter case.

  \<^medskip>
  \<^bold>\<open>Modelling choices and limits.\<close> Characters are those of \<open>char\<close> (code points
  0 to 255); \<open>str.isspace\<close> and \<open>str.lower\<close> are exact on them, and no character of
  the format's syntax lies above them. No loop needs fuel: the generator's loop is
  structural recursion over the list of lines, so \<open>chunks\<close> is total and returns on
  every input. The lines are those of \<open>readlines()\<close> on text whose line ends are
  already \<open>\n\<close> (text mode translates the others). The messages of the two
  \<open>SyntaxError\<close>s are represented by their kind and the offending line. Opening
  files, \<open>gzip\<close> decompression, \<open>utf-8-sig\<close> decoding (the byte-order mark) and
  printing are not modelled: they are library I/O around the parser, and the file
  system enters \<open>parse_file\<close> as a parameter; every failure of opening or reading is
  the one outcome \<open>OSError\<close>, so a \<open>UnicodeDecodeError\<close> of decoding or an
  \<open>EOFError\<close> of a truncated archive is not told apart from it. The interaction of
  the \<open>with\<close> statement with a consumer that stops early is Python's generator
  semantics, not code of the repository, and is not modelled.

  \<^medskip>
  \<^bold>\<open>Plan for further work.\<close> The \<open>utf-8-sig\<close> byte-order mark at the level of
  bytes; a consumer that interleaves \<open>next()\<close> with other work (the trace as an
  inductive relation of generator steps).
\<close>

section \<open>The parser across blocks\<close>

text \<open>
  C11 (continuation after a blank line). Take any input on which the generator has
  yielded some records without raising, and continue it with a blank line and then a line
  that starts with a space. The format, and the contract \<open>spec_chunks\<close>, call that a
  bad start of a data block: the contract keeps the records and raises the
  \<open>SyntaxError\<close> "Bad start of a data block" with that line. The generator keeps the
  same records but raises \<open>KeyError\<close> for a field of the last record: the blank line
  emptied \<open>chunk\<close> but left \<open>key\<close> set, so \<open>chunk[key] += ...\<close> fails.
\<close>

theorem continuation_after_blank_raises_KeyError:
  assumes "chunks xs = (rs, None)" and "rs \<noteq> []"
    and "\<not> py_startswith b ''#''" and "py_strip b = []"
    and "l = CHR '' '' # t" and "py_strip l \<noteq> []"
  shows "(\<exists>k\<in>fst ` set (last rs). chunks (xs @ b # l # ys) = (rs, Some (KeyError k))) \<and>
         spec_chunks (xs @ b # l # ys) = (rs, Some (SyntaxError BadStart l))"
proof -
  obtain rs' e' where sp: "spec_chunks xs = (rs', e')" by fastforce
  from chunks_out_match[of xs] assms(1) sp have "rs' = rs" and m: "err_match None e'"
    by (simp_all add: out_match_def)
  with err_match_None_iff[OF m] sp have "spec_chunks xs = (rs, None)" by simp
  from spec_chunks_blank_continuation[OF this assms(3-6)]
    chunks_blank_continuation[OF assms]
  show ?thesis by blast
qed

theorem continuation_after_blank_raises_KeyError_witness:
  "chunks [''a: 1\<newline>''] = ([[(''a'', ''1'')]], None) \<and>
   chunks ([''a: 1\<newline>''] @ ''\<newline>'' # '' x\<newline>'' # [''b: 2\<newline>'']) =
     ([[(''a'', ''1'')]], Some (KeyError ''a'')) \<and>
   spec_chunks ([''a: 1\<newline>''] @ ''\<newline>'' # '' x\<newline>'' # [''b: 2\<newline>'']) =
     ([[(''a'', ''1'')]], Some (SyntaxError BadStart '' x\<newline>''))"
proof -
  have h1: "chunks [''a: 1\<newline>''] = ([[(''a'', ''1'')]], None)"
    by (simp add: chunks_eval py_simps)
  have h3: "\<not> py_startswith ''\<newline>'' ''#''" and h4: "py_strip ''\<newline>'' = []"
    and h6: "py_strip '' x\<newline>'' \<noteq> []" by (simp_all add: py_simps)
  have h5: "'' x\<newline>'' = CHR '' '' # ''x\<newline>''" by simp
  from continuation_after_blank_raises_KeyError[OF h1 _ h3 h4 h5 h6, of "[''b: 2\<newline>'']"]
  show ?thesis using h1 by simp
qed

end
